theory Spec2Isabelle
  imports Complex_Main
begin

section \<open>Data model\<close>

text \<open>
  Python floats are modelled as exact reals, Python ints as \<open>int\<close>, zoom levels as
  \<open>nat\<close>. An exception that leaves a function is a value \<open>Inl e\<close> of the result.
\<close>

datatype error = URLError | ValueError | ZeroDivisionError

text \<open>
  A PIL image: its size and its pixel data. Only the pixels inside the size belong to the
  image; \<open>tobytes\<close> reads exactly those, row by row, as PIL's \<open>Image.tobytes\<close> does.
\<close>

type_synonym colour = "nat \<times> nat \<times> nat"

record image =
  width :: int
  height :: int
  pixels :: "int \<Rightarrow> int \<Rightarrow> colour"

definition black :: colour where
  "black = (0, 0, 0)"

definition tobytes :: "image \<Rightarrow> colour list" where
  "tobytes im = concat (map (\<lambda>y. map (\<lambda>x. pixels im x y) [0..width im - 1]) [0..height im - 1])"

text \<open>\<open>a == b\<close> on PIL images: same size and same pixel data.\<close>

definition image_eq :: "image \<Rightarrow> image \<Rightarrow> bool" where
  "image_eq a b = (width a = width b \<and> height a = height b \<and> tobytes a = tobytes b)"

text \<open>\<open>Image.new('RGB', (w, h))\<close>: a black image; PIL raises ValueError on a negative size.\<close>

definition Image_new :: "int \<Rightarrow> int \<Rightarrow> error + image" where
  "Image_new w h =
     (if w < 0 \<or> h < 0 then Inl ValueError
      else Inr \<lparr>width = w, height = h, pixels = (\<lambda>x y. black)\<rparr>)"

text \<open>
  \<open>dst.paste(src, (ox, oy))\<close>: the pixels of \<open>src\<close> are copied into \<open>dst\<close> with the
  upper left corner of \<open>src\<close> at \<open>(ox, oy)\<close>; what falls outside \<open>dst\<close> is dropped.
\<close>

definition paste :: "image \<Rightarrow> image \<Rightarrow> int \<times> int \<Rightarrow> image" where
  "paste dst src box =
     (case box of (ox, oy) \<Rightarrow>
        dst\<lparr>pixels := (\<lambda>x y.
          if 0 \<le> x \<and> x < width dst \<and> 0 \<le> y \<and> y < height dst \<and>
             ox \<le> x \<and> x < ox + width src \<and> oy \<le> y \<and> y < oy + height src
          then pixels src (x - ox) (y - oy)
          else pixels dst x y)\<rparr>)"

text \<open>What the program prints, one constructor for each \<open>print\<close> of the source.\<close>

datatype message =
    ClippedPixels real real real real
  | CalculatedBoundingBox real real real real
  | CannotFindImagery
  | CannotFindTile nat int int
  | ImageSaved real real
  | ProcessingLocation real real
  | FailedToRetrieve real real

text \<open>
  The world the program acts on: the file \<open>null.png\<close> (absent or holding an image), the
  quadkeys requested from the tile server so far, the images saved into the output
  folder (named by the pair \<open>(lat1, lon1)\<close> that the file name is built from), and the
  lines printed.
\<close>

record world =
  null_png :: "image option"
  requests :: "string list"
  saved :: "((real \<times> real) \<times> image) list"
  stdout :: "message list"

text \<open>
  The tile server: the image it answers for a quadkey, or \<open>None\<close> when the request
  fails (then \<open>urlopen\<close> raises).
\<close>

type_synonym server = "string \<Rightarrow> image option"

text \<open>
  How a block of statements inside \<open>max_resolution_imagery_retrieval\<close> ends: it runs to
  its end with a value, it executes \<open>return b\<close>, or an exception leaves it.
\<close>

datatype 'a outcome = Normal 'a | Return bool | Raise error

definition print :: "message \<Rightarrow> world \<Rightarrow> world" where
  "print m w = w\<lparr>stdout := stdout w @ [m]\<rparr>"

section \<open>TileSystem\<close>

text \<open>Modelled from the spec: the constant \<open>TileSystem.MAXLEVEL\<close> of the module
  \<open>tilesystem\<close>, which the sources import but do not contain; 23 in the reference scheme.\<close>

definition MAXLEVEL :: nat where
  "MAXLEVEL = 23"

text \<open>Modelled from the spec: the constant \<open>TileSystem.EARTHRADIUS\<close> (Earth's mean
  radius, 6378137 m), missing with the module \<open>tilesystem\<close>.\<close>

definition EARTHRADIUS :: real where
  "EARTHRADIUS = 6378137"

text \<open>Modelled from the spec: the latitude limits of \<open>TileSystem\<close> (the Mercator validity
  limit), missing with the module \<open>tilesystem\<close>.\<close>

definition MINLAT :: real where
  "MINLAT = - 85.05112878"

definition MAXLAT :: real where
  "MAXLAT = 85.05112878"

text \<open>Modelled from the spec: the longitude limits of \<open>TileSystem\<close>, missing with the
  module \<open>tilesystem\<close>.\<close>

definition MINLON :: real where
  "MINLON = - 180"

definition MAXLON :: real where
  "MAXLON = 180"

text \<open>Modelled from the spec: \<open>TileSystem.clip\<close>, missing with the module \<open>tilesystem\<close>;
  the standard clamp of a value into \<open>[minval, maxval]\<close>.\<close>

definition clip :: "real \<Rightarrow> real \<Rightarrow> real \<Rightarrow> real" where
  "clip val minval maxval = min (max val minval) maxval"

text \<open>Modelled from the spec: \<open>TileSystem.map_size\<close>, missing with the module
  \<open>tilesystem\<close>; \<open>256 \<times> 2^level\<close>.\<close>

definition map_size :: "nat \<Rightarrow> int" where
  "map_size level = 256 * 2 ^ level"

text \<open>Modelled from the spec: \<open>TileSystem.ground_resolution\<close>, missing with the module
  \<open>tilesystem\<close>; \<open>cos(clip(latitude)) \<times> 2\<pi>R / mapSize(level)\<close>, the latitude in
  degrees.\<close>

definition ground_resolution :: "real \<Rightarrow> nat \<Rightarrow> real" where
  "ground_resolution lat level =
     cos (clip lat MINLAT MAXLAT * pi / 180) * 2 * pi * EARTHRADIUS / real_of_int (map_size level)"

text \<open>Modelled from the spec: \<open>TileSystem.latlong_to_pixelXY\<close>, missing with the module
  \<open>tilesystem\<close>; the spherical Mercator forward projection scaled to \<open>map_size level\<close>:
  the longitude maps linearly, the latitude through the sine/log transform, and the
  result is clipped to \<open>[0, map_size level - 1]\<close> and rounded to a pixel.\<close>

definition latlong_to_pixelXY :: "real \<Rightarrow> real \<Rightarrow> nat \<Rightarrow> int \<times> int" where
  "latlong_to_pixelXY lat lon level =
     (let lat' = clip lat MINLAT MAXLAT;
          lon' = clip lon MINLON MAXLON;
          x = (lon' + 180) / 360;
          sinlat = sin (lat' * pi / 180);
          y = 0.5 - ln ((1 + sinlat) / (1 - sinlat)) / (4 * pi);
          mapsize = real_of_int (map_size level)
      in (\<lfloor>clip (x * mapsize + 0.5) 0 (mapsize - 1)\<rfloor>,
          \<lfloor>clip (y * mapsize + 0.5) 0 (mapsize - 1)\<rfloor>))"

text \<open>Modelled from the spec: \<open>TileSystem.pixelXY_to_latlong\<close>, missing with the module
  \<open>tilesystem\<close>; the inverse of the projection above, on pixel coordinates clipped to
  \<open>[0, map_size level - 1]\<close>.\<close>

definition pixelXY_to_latlong :: "real \<Rightarrow> real \<Rightarrow> nat \<Rightarrow> real \<times> real" where
  "pixelXY_to_latlong pixelX pixelY level =
     (let mapsize = real_of_int (map_size level);
          x = clip pixelX 0 (mapsize - 1) / mapsize - 0.5;
          y = 0.5 - clip pixelY 0 (mapsize - 1) / mapsize
      in (90 - 360 * arctan (exp (- y * 2 * pi)) / pi, 360 * x))"

text \<open>Modelled from the spec: \<open>TileSystem.pixelXY_to_tileXY\<close>, missing with the module
  \<open>tilesystem\<close>; integer division by the tile edge length 256.\<close>

definition pixelXY_to_tileXY :: "int \<Rightarrow> int \<Rightarrow> int \<times> int" where
  "pixelXY_to_tileXY pixelX pixelY = (pixelX div 256, pixelY div 256)"

text \<open>Modelled from the spec: \<open>TileSystem.tileXY_to_quadkey\<close>, missing with the module
  \<open>tilesystem\<close>; one digit \<open>2 \<times> bit(tileY) + bit(tileX)\<close> for each bit position from
  the most significant (\<open>level\<close>) down to 1, the most significant digit first.\<close>

definition quad_digit :: "int \<Rightarrow> char" where
  "quad_digit d =
     (if d = 0 then CHR ''0'' else if d = 1 then CHR ''1''
      else if d = 2 then CHR ''2'' else CHR ''3'')"

fun tileXY_to_quadkey :: "int \<Rightarrow> int \<Rightarrow> nat \<Rightarrow> string" where
  "tileXY_to_quadkey tileX tileY 0 = []"
| "tileXY_to_quadkey tileX tileY (Suc i) =
     quad_digit (2 * ((tileY div 2 ^ i) mod 2) + (tileX div 2 ^ i) mod 2)
       # tileXY_to_quadkey tileX tileY i"

section \<open>bing\_download.py\<close>

definition TILESIZE :: int where
  "TILESIZE = 256"

text \<open>The quadkey the null image is downloaded with in \<open>is_valid_image\<close>.\<close>

definition NULLKEY :: string where
  "NULLKEY = ''11111111111111111111''"

text \<open>\<open>download_image\<close>: one request to the server; a failed request raises.\<close>

definition download_image :: "server \<Rightarrow> string \<Rightarrow> world \<Rightarrow> world \<times> (error + image)" where
  "download_image net quadkey w =
     (w\<lparr>requests := requests w @ [quadkey]\<rparr>,
      case net quadkey of None \<Rightarrow> Inl URLError | Some im \<Rightarrow> Inr im)"

text \<open>\<open>is_valid_image\<close>: when \<open>null.png\<close> does not exist it is downloaded and saved
  first; the image is valid when it differs from the image in \<open>null.png\<close>.\<close>

definition is_valid_image :: "server \<Rightarrow> image \<Rightarrow> world \<Rightarrow> world \<times> (error + bool)" where
  "is_valid_image net im w =
     (case null_png w of
        None \<Rightarrow>
          (case download_image net NULLKEY w of
             (w1, Inl e) \<Rightarrow> (w1, Inl e)
           | (w1, Inr nullimg) \<Rightarrow> (w1\<lparr>null_png := Some nullimg\<rparr>, Inr (\<not> image_eq im nullimg)))
      | Some nullimg \<Rightarrow> (w, Inr (\<not> image_eq im nullimg)))"

text \<open>\<open>AerialImageRetrieval.calculate_bounding_box\<close>, with \<open>self.size_meters\<close> as first
  argument. The division by \<open>ground_res\<close> raises when the divisor is zero.\<close>

definition AerialImageRetrieval_calculate_bounding_box ::
  "real \<Rightarrow> real \<Rightarrow> real \<Rightarrow> world \<Rightarrow> world \<times> (error + real \<times> real \<times> real \<times> real)" where
  "AerialImageRetrieval_calculate_bounding_box size_meters lat lon w =
     (let level = MAXLEVEL;
          ground_res = ground_resolution lat level
      in if ground_res = 0 then (w, Inl ZeroDivisionError)
         else
           let half_size_pixels = (size_meters / 2) / ground_res in
           case latlong_to_pixelXY lat lon level of (center_pixelX, center_pixelY) \<Rightarrow>
           let pixelX1 = real_of_int center_pixelX - half_size_pixels;
               pixelX2 = real_of_int center_pixelX + half_size_pixels;
               pixelY1 = real_of_int center_pixelY - half_size_pixels;
               pixelY2 = real_of_int center_pixelY + half_size_pixels;
               mapsize = real_of_int (map_size level);
               pixelX1 = clip pixelX1 0 (mapsize - 1);
               pixelX2 = clip pixelX2 0 (mapsize - 1);
               pixelY1 = clip pixelY1 0 (mapsize - 1);
               pixelY2 = clip pixelY2 0 (mapsize - 1);
               w1 = print (ClippedPixels pixelX1 pixelY1 pixelX2 pixelY2) w
           in
           case pixelXY_to_latlong pixelX1 pixelY1 level of (lat1, lon1) \<Rightarrow>
           case pixelXY_to_latlong pixelX2 pixelY2 level of (lat2, lon2) \<Rightarrow>
             (print (CalculatedBoundingBox lat1 lon1 lat2 lon2) w1, Inr (lat1, lon1, lat2, lon2)))"

text \<open>The inner loop \<open>for tileX in range(tileX1, tileX2 + 1)\<close> over the tiles of one row;
  \<open>imagelist\<close> is the list built so far.\<close>

fun fetch_tile_row ::
  "server \<Rightarrow> nat \<Rightarrow> int \<Rightarrow> int list \<Rightarrow> image list \<Rightarrow> world \<Rightarrow> world \<times> image list outcome" where
  "fetch_tile_row net level tileY [] imagelist w = (w, Normal imagelist)"
| "fetch_tile_row net level tileY (tileX # rest) imagelist w =
     (case download_image net (tileXY_to_quadkey tileX tileY level) w of
        (w1, Inl e) \<Rightarrow> (w1, Raise e)
      | (w1, Inr im) \<Rightarrow>
          (case is_valid_image net im w1 of
             (w2, Inl e) \<Rightarrow> (w2, Raise e)
           | (w2, Inr valid) \<Rightarrow>
               if valid then fetch_tile_row net level tileY rest (imagelist @ [im]) w2
               else (print (CannotFindTile level tileX tileY) w2, Return False)))"

text \<open>The row buffer: a new image as wide as the list is long, the i-th image pasted
  at \<open>(i * TILESIZE, 0)\<close>.\<close>

definition row_image :: "image list \<Rightarrow> error + image" where
  "row_image imagelist =
     (case Image_new (int (length imagelist) * TILESIZE) TILESIZE of
        Inl e \<Rightarrow> Inl e
      | Inr blank \<Rightarrow>
          Inr (fold (\<lambda>(i, im) row. paste row im (int i * TILESIZE, 0))
                 (enumerate 0 imagelist) blank))"

text \<open>The loop \<open>for tileY in range(tileY1, tileY2 + 1)\<close>; \<open>result\<close> is the raster so far.\<close>

fun assemble_rows ::
  "server \<Rightarrow> nat \<Rightarrow> int \<Rightarrow> int \<Rightarrow> int \<Rightarrow> int list \<Rightarrow> image \<Rightarrow> world \<Rightarrow> world \<times> image outcome" where
  "assemble_rows net level tileX1 tileX2 tileY1 [] result w = (w, Normal result)"
| "assemble_rows net level tileX1 tileX2 tileY1 (tileY # rest) result w =
     (case fetch_tile_row net level tileY [tileX1..tileX2] [] w of
        (w1, Raise e) \<Rightarrow> (w1, Raise e)
      | (w1, Return b) \<Rightarrow> (w1, Return b)
      | (w1, Normal imagelist) \<Rightarrow>
          (case row_image imagelist of
             Inl e \<Rightarrow> (w1, Raise e)
           | Inr row \<Rightarrow>
               assemble_rows net level tileX1 tileX2 tileY1 rest
                 (paste result row (0, (tileY - tileY1) * TILESIZE)) w1))"

text \<open>\<open>result.save(filename)\<close> as JPEG: PIL raises ValueError on an image with no
  pixels; otherwise the file is written.\<close>

definition save :: "image \<Rightarrow> real \<times> real \<Rightarrow> world \<Rightarrow> world \<times> (error + unit)" where
  "save im filename w =
     (if width im = 0 \<or> height im = 0 then (w, Inl ValueError)
      else (w\<lparr>saved := saved w @ [(filename, im)]\<rparr>, Inr ()))"

text \<open>The body of the loop over the levels, for one level.\<close>

definition attempt_level ::
  "server \<Rightarrow> real \<Rightarrow> real \<Rightarrow> real \<Rightarrow> real \<Rightarrow> nat \<Rightarrow> world \<Rightarrow> world \<times> unit outcome" where
  "attempt_level net lat1 lon1 lat2 lon2 level w =
     (case latlong_to_pixelXY lat1 lon1 level of (pixelX1, pixelY1) \<Rightarrow>
      case latlong_to_pixelXY lat2 lon2 level of (pixelX2, pixelY2) \<Rightarrow>
        if \<bar>pixelX1 - pixelX2\<bar> \<le> 1 \<or> \<bar>pixelY1 - pixelY2\<bar> \<le> 1
        then (print CannotFindImagery w, Return False)
        else
          case pixelXY_to_tileXY pixelX1 pixelY1 of (tileX1, tileY1) \<Rightarrow>
          case pixelXY_to_tileXY pixelX2 pixelY2 of (tileX2, tileY2) \<Rightarrow>
          case Image_new ((tileX2 - tileX1 + 1) * TILESIZE) ((tileY2 - tileY1 + 1) * TILESIZE) of
            Inl e \<Rightarrow> (w, Raise e)
          | Inr result \<Rightarrow>
              (case assemble_rows net level tileX1 tileX2 tileY1 [tileY1..tileY2] result w of
                 (w1, Raise e) \<Rightarrow> (w1, Raise e)
               | (w1, Return b) \<Rightarrow> (w1, Return b)
               | (w1, Normal result') \<Rightarrow>
                   (case save result' (lat1, lon1) w1 of
                      (w2, Inl e) \<Rightarrow> (w2, Raise e)
                    | (w2, Inr u) \<Rightarrow> (print (ImageSaved lat1 lon1) w2, Return True))))"

text \<open>The loop \<open>for level in range(TileSystem.MAXLEVEL, 0, -1)\<close>, from the level given
  down to 1: a body that runs to its end is followed by the next lower level.\<close>

fun search_levels ::
  "server \<Rightarrow> real \<Rightarrow> real \<Rightarrow> real \<Rightarrow> real \<Rightarrow> nat \<Rightarrow> world \<Rightarrow> world \<times> unit outcome" where
  "search_levels net lat1 lon1 lat2 lon2 0 w = (w, Normal ())"
| "search_levels net lat1 lon1 lat2 lon2 (Suc n) w =
     (case attempt_level net lat1 lon1 lat2 lon2 (Suc n) w of
        (w1, Normal u) \<Rightarrow> search_levels net lat1 lon1 lat2 lon2 n w1
      | (w1, Return b) \<Rightarrow> (w1, Return b)
      | (w1, Raise e) \<Rightarrow> (w1, Raise e))"

text \<open>\<open>max_resolution_imagery_retrieval\<close>: the loop, then \<open>return False\<close>.\<close>

definition max_resolution_imagery_retrieval ::
  "server \<Rightarrow> real \<Rightarrow> real \<Rightarrow> real \<Rightarrow> real \<Rightarrow> world \<Rightarrow> world \<times> (error + bool)" where
  "max_resolution_imagery_retrieval net lat1 lon1 lat2 lon2 w =
     (case search_levels net lat1 lon1 lat2 lon2 MAXLEVEL w of
        (w1, Normal u) \<Rightarrow> (w1, Inr False)
      | (w1, Return b) \<Rightarrow> (w1, Inr b)
      | (w1, Raise e) \<Rightarrow> (w1, Inl e))"

text \<open>\<open>retrieve_images\<close>: the loop over \<open>self.coords\<close>, with \<open>self.size_meters\<close> as
  argument.\<close>

fun retrieve_images ::
  "server \<Rightarrow> real \<Rightarrow> (real \<times> real) list \<Rightarrow> world \<Rightarrow> world \<times> (error + unit)" where
  "retrieve_images net size_meters [] w = (w, Inr ())"
| "retrieve_images net size_meters ((lat, lon) # coords) w =
     (case AerialImageRetrieval_calculate_bounding_box size_meters lat lon w of
        (w1, Inl e) \<Rightarrow> (w1, Inl e)
      | (w1, Inr (lat1, lon1, lat2, lon2)) \<Rightarrow>
          (case max_resolution_imagery_retrieval net lat1 lon1 lat2 lon2
                  (print (ProcessingLocation lat lon) w1) of
             (w2, Inl e) \<Rightarrow> (w2, Inl e)
           | (w2, Inr success) \<Rightarrow>
               retrieve_images net size_meters coords
                 (if \<not> success then print (FailedToRetrieve lat lon) w2 else w2)))"

section \<open>calculate\_bounding\_box.py\<close>

text \<open>\<open>math.radians\<close> and \<open>math.degrees\<close>.\<close>

definition radians :: "real \<Rightarrow> real" where
  "radians x = x * pi / 180"

definition degrees :: "real \<Rightarrow> real" where
  "degrees x = x * 180 / pi"

text \<open>The function \<open>calculate_bounding_box\<close> of the module; the division that computes
  \<open>d_lon\<close> raises when its divisor is zero.\<close>

definition calculate_bounding_box ::
  "real \<Rightarrow> real \<Rightarrow> real \<Rightarrow> error + real \<times> real \<times> real \<times> real" where
  "calculate_bounding_box lat lon box_size_meters =
     (let R = 6378137;
          lat_rad = radians lat;
          lon_rad = radians lon;
          d_lat = box_size_meters / R
      in if R * cos lat_rad = 0 then Inl ZeroDivisionError
         else
           let d_lon = box_size_meters / (R * cos lat_rad);
               lat1 = degrees (lat_rad + d_lat / 2);
               lon1 = degrees (lon_rad - d_lon / 2);
               lat2 = degrees (lat_rad - d_lat / 2);
               lon2 = degrees (lon_rad + d_lon / 2)
           in Inr (lat1, lon1, lat2, lon2))"

section \<open>Reference definitions and test inputs\<close>

text \<open>The search as the specification allows it to be simplified: one attempt at
  \<open>MAXLEVEL\<close>, no loop.\<close>

definition single_attempt ::
  "server \<Rightarrow> real \<Rightarrow> real \<Rightarrow> real \<Rightarrow> real \<Rightarrow> world \<Rightarrow> world \<times> (error + bool)" where
  "single_attempt net lat1 lon1 lat2 lon2 w =
     (case attempt_level net lat1 lon1 lat2 lon2 MAXLEVEL w of
        (w1, Normal u) \<Rightarrow> (w1, Inr False)
      | (w1, Return b) \<Rightarrow> (w1, Inr b)
      | (w1, Raise e) \<Rightarrow> (w1, Inl e))"

text \<open>A fresh world: no \<open>null.png\<close>, nothing requested, saved or printed.\<close>

definition world0 :: world where
  "world0 = \<lparr>null_png = None, requests = [], saved = [], stdout = []\<rparr>"

text \<open>The image a tile is compared with in \<open>is_valid_image\<close>: the one in \<open>null.png\<close>,
  or the one the server answers for \<open>NULLKEY\<close> when the file does not exist yet.\<close>

definition sentinel :: "server \<Rightarrow> world \<Rightarrow> image option" where
  "sentinel net w = (case null_png w of None \<Rightarrow> net NULLKEY | Some nullimg \<Rightarrow> Some nullimg)"

text \<open>A tile is unavailable when its request fails or the image equals the sentinel.\<close>

definition tile_unavailable :: "server \<Rightarrow> world \<Rightarrow> string \<Rightarrow> bool" where
  "tile_unavailable net w quadkey =
     (case net quadkey of
        None \<Rightarrow> True
      | Some im \<Rightarrow> (case sentinel net w of None \<Rightarrow> False | Some nullimg \<Rightarrow> image_eq im nullimg))"

text \<open>A tile passes: it is downloaded, the sentinel is at hand, and the two differ.\<close>

definition tile_ok :: "server \<Rightarrow> world \<Rightarrow> string \<Rightarrow> bool" where
  "tile_ok net w quadkey =
     (case net quadkey of
        None \<Rightarrow> False
      | Some im \<Rightarrow> (case sentinel net w of None \<Rightarrow> False | Some nullimg \<Rightarrow> \<not> image_eq im nullimg))"

text \<open>The test of the loop body: the box spans at most one pixel in x or in y.\<close>

definition collapsed :: "real \<Rightarrow> real \<Rightarrow> real \<Rightarrow> real \<Rightarrow> nat \<Rightarrow> bool" where
  "collapsed lat1 lon1 lat2 lon2 level =
     (case latlong_to_pixelXY lat1 lon1 level of (pixelX1, pixelY1) \<Rightarrow>
      case latlong_to_pixelXY lat2 lon2 level of (pixelX2, pixelY2) \<Rightarrow>
        \<bar>pixelX1 - pixelX2\<bar> \<le> 1 \<or> \<bar>pixelY1 - pixelY2\<bar> \<le> 1)"

text \<open>The tile indices of the two corners, as the loop body computes them.\<close>

definition tile_range :: "real \<Rightarrow> real \<Rightarrow> real \<Rightarrow> real \<Rightarrow> nat \<Rightarrow> int \<times> int \<times> int \<times> int" where
  "tile_range lat1 lon1 lat2 lon2 level =
     (case latlong_to_pixelXY lat1 lon1 level of (pixelX1, pixelY1) \<Rightarrow>
      case latlong_to_pixelXY lat2 lon2 level of (pixelX2, pixelY2) \<Rightarrow>
      case pixelXY_to_tileXY pixelX1 pixelY1 of (tileX1, tileY1) \<Rightarrow>
      case pixelXY_to_tileXY pixelX2 pixelY2 of (tileX2, tileY2) \<Rightarrow>
        (tileX1, tileY1, tileX2, tileY2))"

text \<open>The tiles of the grid in the order of the two loops: row by row.\<close>

definition tile_grid :: "int \<Rightarrow> int \<Rightarrow> int \<Rightarrow> int \<Rightarrow> (int \<times> int) list" where
  "tile_grid tileX1 tileY1 tileX2 tileY2 =
     concat (map (\<lambda>tileY. map (\<lambda>tileX. (tileX, tileY)) [tileX1..tileX2]) [tileY1..tileY2])"

text \<open>The image the server answers for a tile.\<close>

definition fetched_tile :: "server \<Rightarrow> nat \<Rightarrow> int \<Rightarrow> int \<Rightarrow> image" where
  "fetched_tile net level tileX tileY = the (net (tileXY_to_quadkey tileX tileY level))"

text \<open>The black image \<open>Image.new\<close> returns for a size that is not negative.\<close>

definition blank :: "int \<Rightarrow> int \<Rightarrow> image" where
  "blank w h = \<lparr>width = w, height = h, pixels = (\<lambda>x y. black)\<rparr>"

text \<open>The row buffer when \<open>Image.new\<close> does not raise.\<close>

definition row_buffer :: "image list \<Rightarrow> image" where
  "row_buffer imagelist =
     fold (\<lambda>(i, im) row. paste row im (int i * TILESIZE, 0)) (enumerate 0 imagelist)
       (blank (int (length imagelist) * TILESIZE) TILESIZE)"

text \<open>The raster as the code composes it: each row buffer pasted at
  \<open>(0, (tileY - tileY1) * TILESIZE)\<close>.\<close>

definition per_row_mosaic :: "(int \<Rightarrow> int \<Rightarrow> image) \<Rightarrow> int \<Rightarrow> int \<Rightarrow> int \<Rightarrow> int \<Rightarrow> image" where
  "per_row_mosaic tile tileX1 tileY1 tileX2 tileY2 =
     fold (\<lambda>tileY result.
             paste result (row_buffer (map (\<lambda>tileX. tile tileX tileY) [tileX1..tileX2]))
               (0, (tileY - tileY1) * TILESIZE))
       [tileY1..tileY2]
       (blank ((tileX2 - tileX1 + 1) * TILESIZE) ((tileY2 - tileY1 + 1) * TILESIZE))"

text \<open>The raster as the specification words it: each tile pasted at
  \<open>((tileX - tileX1) * TILESIZE, (tileY - tileY1) * TILESIZE)\<close>.\<close>

definition direct_mosaic :: "(int \<Rightarrow> int \<Rightarrow> image) \<Rightarrow> int \<Rightarrow> int \<Rightarrow> int \<Rightarrow> int \<Rightarrow> image" where
  "direct_mosaic tile tileX1 tileY1 tileX2 tileY2 =
     fold (\<lambda>(tileX, tileY) result.
             paste result (tile tileX tileY)
               ((tileX - tileX1) * TILESIZE, (tileY - tileY1) * TILESIZE))
       (tile_grid tileX1 tileY1 tileX2 tileY2)
       (blank ((tileX2 - tileX1 + 1) * TILESIZE) ((tileY2 - tileY1 + 1) * TILESIZE))"

text \<open>Test inputs: a white tile, the grey placeholder tile, and a world whose
  \<open>null.png\<close> holds the placeholder.\<close>

definition white_tile :: image where
  "white_tile = \<lparr>width = 256, height = 256, pixels = (\<lambda>x y. (255, 255, 255))\<rparr>"

definition camera_tile :: image where
  "camera_tile = \<lparr>width = 256, height = 256, pixels = (\<lambda>x y. (128, 128, 128))\<rparr>"

definition world1 :: world where
  "world1 = \<lparr>null_png = Some camera_tile, requests = [], saved = [], stdout = []\<rparr>"

text \<open>A tile that is downloaded and equals the sentinel.\<close>

definition tile_is_sentinel :: "server \<Rightarrow> world \<Rightarrow> string \<Rightarrow> bool" where
  "tile_is_sentinel net w quadkey =
     (case net quadkey of
        None \<Rightarrow> False
      | Some im \<Rightarrow> (case sentinel net w of None \<Rightarrow> False | Some nullimg \<Rightarrow> image_eq im nullimg))"

text \<open>The box that \<open>AerialImageRetrieval.calculate_bounding_box\<close> computes for the
  centre (0, 0) and the default size of 200 m: about 0.0009 degrees to each side.\<close>

definition box_north :: real where
  "box_north = 90 - 360 * arctan (exp (- (100 / 6378137))) / pi"

definition box_west :: real where
  "box_west = - (18000 / (pi * 6378137))"

definition box_south :: real where
  "box_south = 90 - 360 * arctan (exp (100 / 6378137)) / pi"

definition box_east :: real where
  "box_east = 18000 / (pi * 6378137)"

section \<open>The bounding box of calculate\_bounding\_box.py\<close>

lemma cos_radians_pos:
  assumes "\<bar>lat\<bar> < 90"
  shows "0 < cos (radians lat)"
proof -
  have lo: "- 90 < lat" and hi: "lat < 90"
    using assms by auto
  have "lat * pi < 90 * pi"
    using hi pi_gt_zero by (rule mult_strict_right_mono)
  moreover have "(- 90) * pi < lat * pi"
    using lo pi_gt_zero by (rule mult_strict_right_mono)
  ultimately have "- (pi / 2) < radians lat" "radians lat < pi / 2"
    by (simp_all add: radians_def)
  then show ?thesis by (rule cos_gt_zero_pi)
qed

text \<open>
  Claim C9. For a center with \<open>|lat| < 90\<close> and a box size \<open>\<ge> 0\<close>, the function
  returns a tuple \<open>(lat1, lon1, lat2, lon2)\<close> with \<open>lat1 \<ge> lat2\<close> and \<open>lon1 \<le> lon2\<close>:
  the first corner is the upper left one, the second the lower right one.
\<close>

theorem calculate_bounding_box_corners:
  assumes "\<bar>lat\<bar> < 90" and "0 \<le> box_size_meters"
  shows "\<exists>lat1 lon1 lat2 lon2.
           calculate_bounding_box lat lon box_size_meters = Inr (lat1, lon1, lat2, lon2) \<and>
           lat2 \<le> lat1 \<and> lon1 \<le> lon2"
proof -
  have c: "0 < cos (radians lat)" using assms(1) by (rule cos_radians_pos)
  have d: "0 \<le> box_size_meters / (6378137 * cos (radians lat))"
    using c assms(2) by simp
  have e: "0 \<le> box_size_meters / 6378137" using assms(2) by simp
  have "degrees (radians lat - box_size_meters / 6378137 / 2)
          \<le> degrees (radians lat + box_size_meters / 6378137 / 2)"
    using e pi_gt_zero by (simp add: degrees_def divide_le_cancel)
  moreover have "degrees (radians lon - box_size_meters / (6378137 * cos (radians lat)) / 2)
          \<le> degrees (radians lon + box_size_meters / (6378137 * cos (radians lat)) / 2)"
    using d pi_gt_zero by (simp add: degrees_def divide_le_cancel)
  ultimately show ?thesis
    using c by (simp add: calculate_bounding_box_def Let_def)
qed

theorem calculate_bounding_box_corners_witness:
  "\<bar>13.7563 :: real\<bar> < 90 \<and> (0 :: real) \<le> 200 \<and>
   (\<exists>lat1 lon1 lat2 lon2.
      calculate_bounding_box 13.7563 100.5018 200 = Inr (lat1, lon1, lat2, lon2) \<and>
      lat2 \<le> lat1 \<and> lon1 \<le> lon2)"
  using calculate_bounding_box_corners [of "13.7563" 200 "100.5018"] by simp

text \<open>
  Claim C10. For a center with \<open>|lat| < 90\<close> and any box size, the corners returned
  are symmetric about the center: \<open>(lat1 + lat2) / 2 = lat\<close> and
  \<open>(lon1 + lon2) / 2 = lon\<close>.
\<close>

theorem calculate_bounding_box_centered:
  assumes "\<bar>lat\<bar> < 90"
  shows "\<exists>lat1 lon1 lat2 lon2.
           calculate_bounding_box lat lon box_size_meters = Inr (lat1, lon1, lat2, lon2) \<and>
           (lat1 + lat2) / 2 = lat \<and> (lon1 + lon2) / 2 = lon"
proof -
  have c: "0 < cos (radians lat)" using assms by (rule cos_radians_pos)
  have "(degrees (radians lat + box_size_meters / 6378137 / 2)
          + degrees (radians lat - box_size_meters / 6378137 / 2)) / 2 = lat"
    using pi_gt_zero by (simp add: degrees_def radians_def field_simps)
  moreover have "(degrees (radians lon - box_size_meters / (6378137 * cos (radians lat)) / 2)
          + degrees (radians lon + box_size_meters / (6378137 * cos (radians lat)) / 2)) / 2 = lon"
    using pi_gt_zero by (simp add: degrees_def radians_def field_simps)
  ultimately show ?thesis
    using c by (simp add: calculate_bounding_box_def Let_def)
qed

theorem calculate_bounding_box_centered_witness:
  "\<bar>13.7563 :: real\<bar> < 90 \<and>
   (\<exists>lat1 lon1 lat2 lon2.
      calculate_bounding_box 13.7563 100.5018 500 = Inr (lat1, lon1, lat2, lon2) \<and>
      (lat1 + lat2) / 2 = 13.7563 \<and> (lon1 + lon2) / 2 = 100.5018)"
  using calculate_bounding_box_centered [of "13.7563" "100.5018" 500] by simp

lemma clip_range:
  assumes "lo \<le> hi"
  shows "lo \<le> clip v lo hi" and "clip v lo hi \<le> hi"
  using assms by (simp_all add: clip_def)

lemma map_size_ge: "256 \<le> map_size level"
  by (simp add: map_size_def)

lemma clip_lat_cos_pos: "0 < cos (clip lat MINLAT MAXLAT * pi / 180)"
proof -
  have "MINLAT \<le> clip lat MINLAT MAXLAT" "clip lat MINLAT MAXLAT \<le> MAXLAT"
    by (rule clip_range, simp add: MINLAT_def MAXLAT_def)+
  then have lo: "- 90 < clip lat MINLAT MAXLAT" and hi: "clip lat MINLAT MAXLAT < 90"
    by (simp_all add: MINLAT_def MAXLAT_def)
  have "clip lat MINLAT MAXLAT * pi < 90 * pi"
    using hi pi_gt_zero by (rule mult_strict_right_mono)
  moreover have "(- 90) * pi < clip lat MINLAT MAXLAT * pi"
    using lo pi_gt_zero by (rule mult_strict_right_mono)
  ultimately show ?thesis
    by (intro cos_gt_zero_pi) simp_all
qed

lemma ground_resolution_pos: "0 < ground_resolution lat level"
proof -
  have "0 < real_of_int (map_size level)"
    using map_size_ge [of level] by simp
  then show ?thesis
    unfolding ground_resolution_def EARTHRADIUS_def
    using clip_lat_cos_pos [of lat] pi_gt_zero by simp
qed

section \<open>The bounding box of AerialImageRetrieval\<close>

text \<open>
  Claim C8. For every center and size, \<open>AerialImageRetrieval.calculate_bounding_box\<close>
  returns, and the four pixel coordinates it passes to \<open>pixelXY_to_latlong\<close> (the ones
  it prints as clipped pixels) lie in \<open>[0, map_size MAXLEVEL - 1]\<close>.
\<close>

theorem bounding_box_pixels_clipped:
  "\<exists>pixelX1 pixelY1 pixelX2 pixelY2 lat1 lon1 lat2 lon2.
     pixelXY_to_latlong pixelX1 pixelY1 MAXLEVEL = (lat1, lon1) \<and>
     pixelXY_to_latlong pixelX2 pixelY2 MAXLEVEL = (lat2, lon2) \<and>
     AerialImageRetrieval_calculate_bounding_box size_meters lat lon w =
       (print (CalculatedBoundingBox lat1 lon1 lat2 lon2)
          (print (ClippedPixels pixelX1 pixelY1 pixelX2 pixelY2) w),
        Inr (lat1, lon1, lat2, lon2)) \<and>
     0 \<le> pixelX1 \<and> pixelX1 \<le> real_of_int (map_size MAXLEVEL) - 1 \<and>
     0 \<le> pixelY1 \<and> pixelY1 \<le> real_of_int (map_size MAXLEVEL) - 1 \<and>
     0 \<le> pixelX2 \<and> pixelX2 \<le> real_of_int (map_size MAXLEVEL) - 1 \<and>
     0 \<le> pixelY2 \<and> pixelY2 \<le> real_of_int (map_size MAXLEVEL) - 1"
proof -
  define top where "top = real_of_int (map_size MAXLEVEL) - 1"
  define half where "half = (size_meters / 2) / ground_resolution lat MAXLEVEL"
  obtain cx cy where c: "latlong_to_pixelXY lat lon MAXLEVEL = (cx, cy)"
    by (cases "latlong_to_pixelXY lat lon MAXLEVEL")
  define x1 where "x1 = clip (real_of_int cx - half) 0 top"
  define x2 where "x2 = clip (real_of_int cx + half) 0 top"
  define y1 where "y1 = clip (real_of_int cy - half) 0 top"
  define y2 where "y2 = clip (real_of_int cy + half) 0 top"
  obtain lat1 lon1 where p1: "pixelXY_to_latlong x1 y1 MAXLEVEL = (lat1, lon1)"
    by (cases "pixelXY_to_latlong x1 y1 MAXLEVEL")
  obtain lat2 lon2 where p2: "pixelXY_to_latlong x2 y2 MAXLEVEL = (lat2, lon2)"
    by (cases "pixelXY_to_latlong x2 y2 MAXLEVEL")
  have g: "ground_resolution lat MAXLEVEL \<noteq> 0"
    using ground_resolution_pos [of lat MAXLEVEL] by simp
  have m: "0 \<le> top"
    using map_size_ge [of MAXLEVEL] by (simp add: top_def)
  have run: "AerialImageRetrieval_calculate_bounding_box size_meters lat lon w =
       (print (CalculatedBoundingBox lat1 lon1 lat2 lon2) (print (ClippedPixels x1 y1 x2 y2) w),
        Inr (lat1, lon1, lat2, lon2))"
    unfolding AerialImageRetrieval_calculate_bounding_box_def Let_def
    using g c p1 p2 by (simp add: x1_def x2_def y1_def y2_def half_def top_def)
  have "0 \<le> x1 \<and> x1 \<le> top \<and> 0 \<le> y1 \<and> y1 \<le> top \<and> 0 \<le> x2 \<and> x2 \<le> top \<and> 0 \<le> y2 \<and> y2 \<le> top"
    unfolding x1_def x2_def y1_def y2_def using clip_range [OF m] by simp
  with p1 p2 run show ?thesis
    unfolding top_def by blast
qed

section \<open>The search over the levels\<close>

lemma attempt_level_returns:
  "snd (attempt_level net lat1 lon1 lat2 lon2 level w) \<noteq> Normal u"
  by (simp add: attempt_level_def split: prod.splits sum.splits outcome.splits)

lemma search_levels_Suc:
  "search_levels net lat1 lon1 lat2 lon2 (Suc n) w = attempt_level net lat1 lon1 lat2 lon2 (Suc n) w"
  using attempt_level_returns [of net lat1 lon1 lat2 lon2 "Suc n" w]
  by (auto split: prod.splits outcome.splits)

lemma search_levels_MAXLEVEL:
  "search_levels net lat1 lon1 lat2 lon2 MAXLEVEL w = attempt_level net lat1 lon1 lat2 lon2 MAXLEVEL w"
proof -
  have m: "MAXLEVEL = Suc 22" by (simp add: MAXLEVEL_def)
  show ?thesis
    by (subst m, subst m) (rule search_levels_Suc)
qed

text \<open>
  Claim C1. When the two corners of the box, as pixels at \<open>MAXLEVEL\<close>, are at most one
  pixel apart in x or in y, \<open>max_resolution_imagery_retrieval\<close> prints that no imagery
  can be found and returns False, the whole search ends there, and no tile is requested
  and nothing is saved.
\<close>

theorem collapsed_box_fails:
  assumes "\<bar>fst (latlong_to_pixelXY lat1 lon1 MAXLEVEL) - fst (latlong_to_pixelXY lat2 lon2 MAXLEVEL)\<bar> \<le> 1
         \<or> \<bar>snd (latlong_to_pixelXY lat1 lon1 MAXLEVEL) - snd (latlong_to_pixelXY lat2 lon2 MAXLEVEL)\<bar> \<le> 1"
  shows "max_resolution_imagery_retrieval net lat1 lon1 lat2 lon2 w = (print CannotFindImagery w, Inr False)
       \<and> requests (fst (max_resolution_imagery_retrieval net lat1 lon1 lat2 lon2 w)) = requests w
       \<and> saved (fst (max_resolution_imagery_retrieval net lat1 lon1 lat2 lon2 w)) = saved w"
proof -
  obtain pixelX1 pixelY1 where p1: "latlong_to_pixelXY lat1 lon1 MAXLEVEL = (pixelX1, pixelY1)"
    by (cases "latlong_to_pixelXY lat1 lon1 MAXLEVEL")
  obtain pixelX2 pixelY2 where p2: "latlong_to_pixelXY lat2 lon2 MAXLEVEL = (pixelX2, pixelY2)"
    by (cases "latlong_to_pixelXY lat2 lon2 MAXLEVEL")
  have "\<bar>pixelX1 - pixelX2\<bar> \<le> 1 \<or> \<bar>pixelY1 - pixelY2\<bar> \<le> 1"
    using assms by (simp add: p1 p2)
  then have "attempt_level net lat1 lon1 lat2 lon2 MAXLEVEL w = (print CannotFindImagery w, Return False)"
    by (simp add: attempt_level_def p1 p2)
  then have "max_resolution_imagery_retrieval net lat1 lon1 lat2 lon2 w = (print CannotFindImagery w, Inr False)"
    by (simp add: max_resolution_imagery_retrieval_def search_levels_MAXLEVEL)
  then show ?thesis by (simp add: print_def)
qed

theorem collapsed_box_fails_witness:
  "(\<bar>fst (latlong_to_pixelXY 13.7563 100.5018 MAXLEVEL) - fst (latlong_to_pixelXY 13.7563 100.5018 MAXLEVEL)\<bar> \<le> 1
    \<or> \<bar>snd (latlong_to_pixelXY 13.7563 100.5018 MAXLEVEL) - snd (latlong_to_pixelXY 13.7563 100.5018 MAXLEVEL)\<bar> \<le> 1)
   \<and> max_resolution_imagery_retrieval (\<lambda>q. None) 13.7563 100.5018 13.7563 100.5018 world0
       = (print CannotFindImagery world0, Inr False)
   \<and> requests (fst (max_resolution_imagery_retrieval (\<lambda>q. None) 13.7563 100.5018 13.7563 100.5018 world0)) = []
   \<and> saved (fst (max_resolution_imagery_retrieval (\<lambda>q. None) 13.7563 100.5018 13.7563 100.5018 world0)) = []"
  using collapsed_box_fails [of "13.7563" "100.5018" "13.7563" "100.5018" "\<lambda>q. None" world0]
  by (simp add: world0_def print_def)

text \<open>
  Claim C7. The loop over the levels is one attempt at \<open>MAXLEVEL\<close>: the function equals
  \<open>single_attempt\<close>, and the loop body never runs to its end at any level (it returns
  or raises), so no level below \<open>MAXLEVEL\<close> is tried.
\<close>

theorem level_loop_is_single_attempt:
  "max_resolution_imagery_retrieval net lat1 lon1 lat2 lon2 w = single_attempt net lat1 lon1 lat2 lon2 w
   \<and> snd (attempt_level net lat1 lon1 lat2 lon2 level w) \<noteq> Normal ()"
  using attempt_level_returns [of net lat1 lon1 lat2 lon2 level w]
  by (simp add: max_resolution_imagery_retrieval_def single_attempt_def search_levels_MAXLEVEL)

theorem level_loop_is_single_attempt_witness:
  "max_resolution_imagery_retrieval (\<lambda>q. None) 0 0 (- 30) 1 world0 = single_attempt (\<lambda>q. None) 0 0 (- 30) 1 world0
   \<and> snd (attempt_level (\<lambda>q. None) 0 0 (- 30) 1 1 world0) \<noteq> Normal ()"
  using level_loop_is_single_attempt [of "\<lambda>q. None" 0 0 "- 30" 1 world0 1]
  by simp

section \<open>The assembly of the tiles\<close>

lemma download_image_effect:
  assumes "download_image net q w = (w', r)"
  shows "w' = w\<lparr>requests := requests w @ [q]\<rparr>"
    and "r = (case net q of None \<Rightarrow> Inl URLError | Some im \<Rightarrow> Inr im)"
  using assms by (auto simp: download_image_def)

lemma is_valid_image_effect:
  assumes "is_valid_image net im w = (w', r)"
  shows "saved w' = saved w" and "stdout w' = stdout w"
    and "sentinel net w' = sentinel net w"
    and "set (requests w') \<subseteq> insert NULLKEY (set (requests w))"
    and "r = (case sentinel net w of None \<Rightarrow> Inl URLError | Some s \<Rightarrow> Inr (\<not> image_eq im s))"
  using assms
  by (auto simp: is_valid_image_def download_image_def sentinel_def split: option.splits)

lemma sentinel_simps [simp]:
  "sentinel net (w\<lparr>requests := rq\<rparr>) = sentinel net w"
  "sentinel net (w\<lparr>stdout := out\<rparr>) = sentinel net w"
  "sentinel net (w\<lparr>saved := sv\<rparr>) = sentinel net w"
  "sentinel net (print m w) = sentinel net w"
  by (simp_all add: sentinel_def print_def)

lemma print_simps [simp]:
  "saved (print m w) = saved w"
  "requests (print m w) = requests w"
  "null_png (print m w) = null_png w"
  "stdout (print m w) = stdout w @ [m]"
  by (simp_all add: print_def)

lemma tile_ok_cong: "sentinel net w' = sentinel net w \<Longrightarrow> tile_ok net w' q = tile_ok net w q"
  by (simp add: tile_ok_def split: option.splits)

lemma fetch_tile_row_effect:
  assumes "fetch_tile_row net level tileY xs imagelist w = (w', r)"
  shows "saved w' = saved w \<and> sentinel net w' = sentinel net w \<and>
         (case r of
            Normal imgs \<Rightarrow> stdout w' = stdout w \<and>
              imgs = imagelist @ map (\<lambda>x. fetched_tile net level x tileY) xs \<and>
              (\<forall>x\<in>set xs. tile_ok net w (tileXY_to_quadkey x tileY level))
          | Return b \<Rightarrow> \<not> b \<and>
              (\<exists>x\<in>set xs. \<not> tile_ok net w (tileXY_to_quadkey x tileY level) \<and>
                 stdout w' = stdout w @ [CannotFindTile level x tileY])
          | Raise e \<Rightarrow> e = URLError \<and>
              (\<exists>x\<in>set xs. \<not> tile_ok net w (tileXY_to_quadkey x tileY level)))"
  using assms
proof (induction xs arbitrary: imagelist w)
  case Nil
  then show ?case by auto
next
  case (Cons x xs)
  let ?q = "tileXY_to_quadkey x tileY level"
  let ?w1 = "w\<lparr>requests := requests w @ [?q]\<rparr>"
  show ?case
  proof (cases "net ?q")
    case None
    have nok: "\<not> tile_ok net w ?q" using None by (simp add: tile_ok_def)
    have "w' = ?w1" "r = Raise URLError"
      using Cons.prems None by (simp_all add: download_image_def)
    then show ?thesis using nok by simp
  next
    case (Some im)
    obtain w2 r2 where v: "is_valid_image net im ?w1 = (w2, r2)"
      by (cases "is_valid_image net im ?w1")
    note v1 = is_valid_image_effect [OF v]
    have w2: "saved w2 = saved w" "stdout w2 = stdout w" "sentinel net w2 = sentinel net w"
      using v1 by simp_all
    have step: "fetch_tile_row net level tileY (x # xs) imagelist w =
      (case r2 of
         Inl e \<Rightarrow> (w2, Raise e)
       | Inr valid \<Rightarrow>
           if valid then fetch_tile_row net level tileY xs (imagelist @ [im]) w2
           else (print (CannotFindTile level x tileY) w2, Return False))"
      using Some v by (simp add: download_image_def)
    show ?thesis
    proof (cases "sentinel net w")
      case None
      have nok: "\<not> tile_ok net w ?q" using None Some by (simp add: tile_ok_def)
      have "r2 = Inl URLError" using v1(5) None by simp
      then have "w' = w2" "r = Raise URLError"
        using Cons.prems step by simp_all
      then show ?thesis using nok w2 by simp
    next
      case sent: (Some s)
      have r2: "r2 = Inr (\<not> image_eq im s)" using v1(5) sent by simp
      show ?thesis
      proof (cases "image_eq im s")
        case True
        have nok: "\<not> tile_ok net w ?q" using True sent Some by (simp add: tile_ok_def)
        have "w' = print (CannotFindTile level x tileY) w2" "r = Return False"
          using Cons.prems step r2 True by simp_all
        then show ?thesis using nok w2 by simp
      next
        case False
        have ok: "tile_ok net w ?q" using False sent Some by (simp add: tile_ok_def)
        have rec: "fetch_tile_row net level tileY xs (imagelist @ [im]) w2 = (w', r)"
          using Cons.prems step r2 False by simp
        have im: "fetched_tile net level x tileY = im"
          using Some by (simp add: fetched_tile_def)
        note ih = Cons.IH [OF rec, unfolded w2 tile_ok_cong [OF w2(3)]]
        show ?thesis
        proof (cases r)
          case (Normal imgs)
          then show ?thesis using ih ok im by simp
        next
          case (Return b)
          then show ?thesis using ih by auto
        next
          case (Raise e)
          then show ?thesis using ih by auto
        qed
      qed
    qed
  qed
qed

lemma row_image_eq: "row_image imagelist = Inr (row_buffer imagelist)"
  by (simp add: row_image_def Image_new_def row_buffer_def blank_def TILESIZE_def)

lemma quadkey_length [simp]: "length (tileXY_to_quadkey tileX tileY level) = level"
  by (induction level) simp_all

lemma is_valid_image_requests:
  assumes "is_valid_image net im w = (w', r)"
  shows "set (requests w') \<subseteq> insert NULLKEY (set (requests w))"
  using assms
  by (auto simp: is_valid_image_def download_image_def split: option.splits)

lemma fetch_tile_row_requests:
  assumes "fetch_tile_row net level tileY xs imagelist w = (w', r)"
  shows "set (requests w') \<subseteq> set (requests w) \<union> insert NULLKEY {q. length q = level}"
  using assms
proof (induction xs arbitrary: imagelist w)
  case Nil
  then show ?case by auto
next
  case (Cons x xs)
  let ?q = "tileXY_to_quadkey x tileY level"
  let ?w1 = "w\<lparr>requests := requests w @ [?q]\<rparr>"
  have base: "set (requests ?w1) \<subseteq> set (requests w) \<union> insert NULLKEY {q. length q = level}"
    by auto
  show ?case
  proof (cases "net ?q")
    case None
    then show ?thesis using Cons.prems base by (auto simp: download_image_def)
  next
    case (Some im)
    obtain w2 r2 where v: "is_valid_image net im ?w1 = (w2, r2)"
      by (cases "is_valid_image net im ?w1")
    have w2: "set (requests w2) \<subseteq> set (requests w) \<union> insert NULLKEY {q. length q = level}"
      using is_valid_image_requests [OF v] base by auto
    show ?thesis
    proof (cases r2)
      case (Inl e)
      then show ?thesis using Cons.prems Some v w2 by (simp add: download_image_def)
    next
      case (Inr valid)
      show ?thesis
      proof (cases valid)
        case True
        then have "fetch_tile_row net level tileY xs (imagelist @ [im]) w2 = (w', r)"
          using Cons.prems Some v Inr by (simp add: download_image_def)
        from Cons.IH [OF this] w2 show ?thesis by auto
      next
        case False
        then show ?thesis using Cons.prems Some v Inr w2 by (auto simp: download_image_def)
      qed
    qed
  qed
qed

lemma assemble_rows_requests:
  assumes "assemble_rows net level tileX1 tileX2 tileY1 ys result w = (w', r)"
  shows "set (requests w') \<subseteq> set (requests w) \<union> insert NULLKEY {q. length q = level}"
  using assms
proof (induction ys arbitrary: result w)
  case Nil
  then show ?case by auto
next
  case (Cons y ys)
  obtain w1 r1 where f: "fetch_tile_row net level y [tileX1..tileX2] [] w = (w1, r1)"
    by (cases "fetch_tile_row net level y [tileX1..tileX2] [] w")
  note f1 = fetch_tile_row_requests [OF f]
  show ?case
  proof (cases r1)
    case (Normal imgs)
    then obtain res where "assemble_rows net level tileX1 tileX2 tileY1 ys res w1 = (w', r)"
      using Cons.prems f by (simp add: row_image_eq)
    from Cons.IH [OF this] f1 show ?thesis by auto
  next
    case (Return b)
    then show ?thesis using Cons.prems f f1 by simp
  next
    case (Raise e)
    then show ?thesis using Cons.prems f f1 by simp
  qed
qed

lemma attempt_level_requests:
  assumes run: "attempt_level net lat1 lon1 lat2 lon2 level w = (w', r)"
  shows "set (requests w') \<subseteq> set (requests w) \<union> insert NULLKEY {q. length q = level}"
proof -
  obtain pixelX1 pixelY1 where p1: "latlong_to_pixelXY lat1 lon1 level = (pixelX1, pixelY1)"
    by (cases "latlong_to_pixelXY lat1 lon1 level")
  obtain pixelX2 pixelY2 where p2: "latlong_to_pixelXY lat2 lon2 level = (pixelX2, pixelY2)"
    by (cases "latlong_to_pixelXY lat2 lon2 level")
  obtain tileX1 tileY1 where t1: "pixelXY_to_tileXY pixelX1 pixelY1 = (tileX1, tileY1)"
    by (cases "pixelXY_to_tileXY pixelX1 pixelY1")
  obtain tileX2 tileY2 where t2: "pixelXY_to_tileXY pixelX2 pixelY2 = (tileX2, tileY2)"
    by (cases "pixelXY_to_tileXY pixelX2 pixelY2")
  let ?W = "(tileX2 - tileX1 + 1) * TILESIZE" and ?H = "(tileY2 - tileY1 + 1) * TILESIZE"
  show ?thesis
  proof (cases "\<bar>pixelX1 - pixelX2\<bar> \<le> 1 \<or> \<bar>pixelY1 - pixelY2\<bar> \<le> 1")
    case True
    then show ?thesis using run by (auto simp: attempt_level_def p1 p2)
  next
    case False
    show ?thesis
    proof (cases "Image_new ?W ?H")
      case (Inl e)
      then show ?thesis using run False by (auto simp: attempt_level_def p1 p2 t1 t2)
    next
      case (Inr result)
      obtain w1 r1 where a: "assemble_rows net level tileX1 tileX2 tileY1 [tileY1..tileY2] result w = (w1, r1)"
        by (cases "assemble_rows net level tileX1 tileX2 tileY1 [tileY1..tileY2] result w")
      have "requests w' = requests w1"
        using run False Inr a
        by (auto simp: attempt_level_def p1 p2 t1 t2 save_def split: outcome.splits if_splits)
      then show ?thesis using assemble_rows_requests [OF a] by simp
    qed
  qed
qed

lemma paste_size [simp]:
  "width (paste dst src box) = width dst" "height (paste dst src box) = height dst"
  by (simp_all add: paste_def split: prod.splits)

lemma assemble_rows_effect:
  assumes "assemble_rows net level tileX1 tileX2 tileY1 ys result w = (w', r)"
  shows "saved w' = saved w \<and> sentinel net w' = sentinel net w \<and>
         (case r of
            Normal res \<Rightarrow> stdout w' = stdout w \<and>
              res = fold (\<lambda>tileY result.
                      paste result
                        (row_buffer (map (\<lambda>tileX. fetched_tile net level tileX tileY) [tileX1..tileX2]))
                        (0, (tileY - tileY1) * TILESIZE)) ys result \<and>
              (\<forall>y\<in>set ys. \<forall>x\<in>{tileX1..tileX2}. tile_ok net w (tileXY_to_quadkey x y level))
          | Return b \<Rightarrow> \<not> b \<and>
              (\<exists>y\<in>set ys. \<exists>x\<in>{tileX1..tileX2}. \<not> tile_ok net w (tileXY_to_quadkey x y level) \<and>
                 stdout w' = stdout w @ [CannotFindTile level x y])
          | Raise e \<Rightarrow> e = URLError \<and>
              (\<exists>y\<in>set ys. \<exists>x\<in>{tileX1..tileX2}. \<not> tile_ok net w (tileXY_to_quadkey x y level)))"
  using assms
proof (induction ys arbitrary: result w)
  case Nil
  then show ?case by auto
next
  case (Cons y ys)
  obtain w1 r1 where f: "fetch_tile_row net level y [tileX1..tileX2] [] w = (w1, r1)"
    by (cases "fetch_tile_row net level y [tileX1..tileX2] [] w")
  note f1 = fetch_tile_row_effect [OF f]
  have w1: "saved w1 = saved w" "sentinel net w1 = sentinel net w"
    using f1 by simp_all
  show ?case
  proof (cases r1)
    case (Normal imgs)
    then have imgs: "imgs = map (\<lambda>x. fetched_tile net level x y) [tileX1..tileX2]"
      and out: "stdout w1 = stdout w"
      and ok: "\<forall>x\<in>{tileX1..tileX2}. tile_ok net w (tileXY_to_quadkey x y level)"
      using f1 by simp_all
    let ?res = "paste result (row_buffer imgs) (0, (y - tileY1) * TILESIZE)"
    have rec: "assemble_rows net level tileX1 tileX2 tileY1 ys ?res w1 = (w', r)"
      using Cons.prems f Normal by (simp add: row_image_eq)
    note ih = Cons.IH [OF rec, unfolded w1 out tile_ok_cong [OF w1(2)]]
    show ?thesis
    proof (cases r)
      case (Normal res)
      then show ?thesis using ih ok imgs by simp
    next
      case (Return b)
      then show ?thesis using ih by auto
    next
      case (Raise e)
      then show ?thesis using ih by auto
    qed
  next
    case (Return b)
    then have "w' = w1" "r = Return b" using Cons.prems f by simp_all
    moreover have "\<not> b \<and> (\<exists>x\<in>{tileX1..tileX2}. \<not> tile_ok net w (tileXY_to_quadkey x y level) \<and>
                 stdout w1 = stdout w @ [CannotFindTile level x y])"
      using f1 Return by simp
    ultimately show ?thesis using w1 by auto
  next
    case (Raise e)
    then have "w' = w1" "r = Raise e" using Cons.prems f by simp_all
    moreover have "e = URLError \<and> (\<exists>x\<in>{tileX1..tileX2}. \<not> tile_ok net w (tileXY_to_quadkey x y level))"
      using f1 Raise by simp
    ultimately show ?thesis using w1 by auto
  qed
qed

lemma attempt_level_effect:
  assumes run: "attempt_level net lat1 lon1 lat2 lon2 level w = (w', r)"
    and nc: "\<not> collapsed lat1 lon1 lat2 lon2 level"
    and tr: "tile_range lat1 lon1 lat2 lon2 level = (tileX1, tileY1, tileX2, tileY2)"
  shows "r = Return True \<and> tileX1 \<le> tileX2 \<and> tileY1 \<le> tileY2 \<and>
           saved w' = saved w @ [((lat1, lon1),
             per_row_mosaic (fetched_tile net level) tileX1 tileY1 tileX2 tileY2)] \<and>
           stdout w' = stdout w @ [ImageSaved lat1 lon1] \<and>
           (\<forall>y\<in>{tileY1..tileY2}. \<forall>x\<in>{tileX1..tileX2}. tile_ok net w (tileXY_to_quadkey x y level))
         \<or> r = Return False \<and> saved w' = saved w \<and>
           (\<exists>y\<in>{tileY1..tileY2}. \<exists>x\<in>{tileX1..tileX2}.
              \<not> tile_ok net w (tileXY_to_quadkey x y level) \<and>
              stdout w' = stdout w @ [CannotFindTile level x y])
         \<or> r = Raise URLError \<and> saved w' = saved w \<and>
           (\<exists>y\<in>{tileY1..tileY2}. \<exists>x\<in>{tileX1..tileX2}.
              \<not> tile_ok net w (tileXY_to_quadkey x y level))
         \<or> r = Raise ValueError \<and> saved w' = saved w \<and> (tileX2 < tileX1 \<or> tileY2 < tileY1)"
proof -
  obtain pixelX1 pixelY1 where p1: "latlong_to_pixelXY lat1 lon1 level = (pixelX1, pixelY1)"
    by (cases "latlong_to_pixelXY lat1 lon1 level")
  obtain pixelX2 pixelY2 where p2: "latlong_to_pixelXY lat2 lon2 level = (pixelX2, pixelY2)"
    by (cases "latlong_to_pixelXY lat2 lon2 level")
  have t1: "pixelXY_to_tileXY pixelX1 pixelY1 = (tileX1, tileY1)"
    and t2: "pixelXY_to_tileXY pixelX2 pixelY2 = (tileX2, tileY2)"
    using tr by (auto simp: tile_range_def p1 p2 split: prod.splits)
  have span: "\<not> (\<bar>pixelX1 - pixelX2\<bar> \<le> 1 \<or> \<bar>pixelY1 - pixelY2\<bar> \<le> 1)"
    using nc by (simp add: collapsed_def p1 p2)
  let ?W = "(tileX2 - tileX1 + 1) * TILESIZE" and ?H = "(tileY2 - tileY1 + 1) * TILESIZE"
  have body: "attempt_level net lat1 lon1 lat2 lon2 level w =
     (case Image_new ?W ?H of
        Inl e \<Rightarrow> (w, Raise e)
      | Inr result \<Rightarrow>
          (case assemble_rows net level tileX1 tileX2 tileY1 [tileY1..tileY2] result w of
             (w1, Raise e) \<Rightarrow> (w1, Raise e)
           | (w1, Return b) \<Rightarrow> (w1, Return b)
           | (w1, Normal result') \<Rightarrow>
               (case save result' (lat1, lon1) w1 of
                  (w2, Inl e) \<Rightarrow> (w2, Raise e)
                | (w2, Inr u) \<Rightarrow> (print (ImageSaved lat1 lon1) w2, Return True))))"
    using span by (simp add: attempt_level_def p1 p2 t1 t2)
  show "r = Return True \<and> tileX1 \<le> tileX2 \<and> tileY1 \<le> tileY2 \<and>
           saved w' = saved w @ [((lat1, lon1),
             per_row_mosaic (fetched_tile net level) tileX1 tileY1 tileX2 tileY2)] \<and>
           stdout w' = stdout w @ [ImageSaved lat1 lon1] \<and>
           (\<forall>y\<in>{tileY1..tileY2}. \<forall>x\<in>{tileX1..tileX2}. tile_ok net w (tileXY_to_quadkey x y level))
         \<or> r = Return False \<and> saved w' = saved w \<and>
           (\<exists>y\<in>{tileY1..tileY2}. \<exists>x\<in>{tileX1..tileX2}.
              \<not> tile_ok net w (tileXY_to_quadkey x y level) \<and>
              stdout w' = stdout w @ [CannotFindTile level x y])
         \<or> r = Raise URLError \<and> saved w' = saved w \<and>
           (\<exists>y\<in>{tileY1..tileY2}. \<exists>x\<in>{tileX1..tileX2}.
              \<not> tile_ok net w (tileXY_to_quadkey x y level))
         \<or> r = Raise ValueError \<and> saved w' = saved w \<and> (tileX2 < tileX1 \<or> tileY2 < tileY1)"
  proof (cases "?W < 0 \<or> ?H < 0")
    case True
    then have "tileX2 < tileX1 \<or> tileY2 < tileY1"
      by (auto simp: TILESIZE_def)
    then show ?thesis using True run body by (auto simp: Image_new_def)
  next
    case False
    then have n: "Image_new ?W ?H = Inr (blank ?W ?H)"
      by (simp add: Image_new_def blank_def)
    obtain w1 r1 where a: "assemble_rows net level tileX1 tileX2 tileY1 [tileY1..tileY2] (blank ?W ?H) w = (w1, r1)"
      by (cases "assemble_rows net level tileX1 tileX2 tileY1 [tileY1..tileY2] (blank ?W ?H) w")
    note a1 = assemble_rows_effect [OF a]
    show ?thesis
    proof (cases r1)
      case (Normal res)
      then have res: "res = per_row_mosaic (fetched_tile net level) tileX1 tileY1 tileX2 tileY2"
        using a1 by (simp add: per_row_mosaic_def)
      have size: "width res = ?W" "height res = ?H"
      proof -
        have "\<And>r0. width (fold (\<lambda>tileY result.
                      paste result
                        (row_buffer (map (\<lambda>tileX. fetched_tile net level tileX tileY) [tileX1..tileX2]))
                        (0, (tileY - tileY1) * TILESIZE)) ys r0) = width r0
                 \<and> height (fold (\<lambda>tileY result.
                      paste result
                        (row_buffer (map (\<lambda>tileX. fetched_tile net level tileX tileY) [tileX1..tileX2]))
                        (0, (tileY - tileY1) * TILESIZE)) ys r0) = height r0" for ys
          by (induction ys) simp_all
        then show "width res = ?W" "height res = ?H"
          using a1 Normal by (simp_all add: blank_def)
      qed
      have w1: "saved w1 = saved w" "stdout w1 = stdout w"
        and ok: "\<forall>y\<in>{tileY1..tileY2}. \<forall>x\<in>{tileX1..tileX2}. tile_ok net w (tileXY_to_quadkey x y level)"
        using a1 Normal by simp_all
      show ?thesis
      proof (cases "?W = 0 \<or> ?H = 0")
        case True
        then have lt: "tileX2 < tileX1 \<or> tileY2 < tileY1"
          by (auto simp: TILESIZE_def)
        have "save res (lat1, lon1) w1 = (w1, Inl ValueError)"
          using True size by (simp add: save_def)
        then have "(w', r) = (w1, Raise ValueError)"
          using run body n a Normal by simp
        then show ?thesis using lt w1 by simp
      next
        case False
        then have le: "tileX1 \<le> tileX2 \<and> tileY1 \<le> tileY2"
          using \<open>\<not> (?W < 0 \<or> ?H < 0)\<close> by (auto simp: TILESIZE_def)
        have "save res (lat1, lon1) w1 = (w1\<lparr>saved := saved w1 @ [((lat1, lon1), res)]\<rparr>, Inr ())"
          using False size by (simp add: save_def)
        then have "(w', r) = (print (ImageSaved lat1 lon1) (w1\<lparr>saved := saved w1 @ [((lat1, lon1), res)]\<rparr>), Return True)"
          using run body n a Normal by simp
        then have "r = Return True" "saved w' = saved w @ [((lat1, lon1), res)]"
          "stdout w' = stdout w @ [ImageSaved lat1 lon1]"
          using w1 by simp_all
        then show ?thesis using le ok res by simp
      qed
    next
      case (Return b)
      then have "w' = w1" "r = Return b" using run body n a by simp_all
      moreover have "saved w1 = saved w" "\<not> b"
        "\<exists>y\<in>{tileY1..tileY2}. \<exists>x\<in>{tileX1..tileX2}.
           \<not> tile_ok net w (tileXY_to_quadkey x y level) \<and>
           stdout w1 = stdout w @ [CannotFindTile level x y]"
        using a1 Return by simp_all
      ultimately show ?thesis by simp
    next
      case (Raise e)
      then have "w' = w1" "r = Raise e" using run body n a by simp_all
      moreover have "saved w1 = saved w" "e = URLError"
        "\<exists>y\<in>{tileY1..tileY2}. \<exists>x\<in>{tileX1..tileX2}.
           \<not> tile_ok net w (tileXY_to_quadkey x y level)"
        using a1 Raise by simp_all
      ultimately show ?thesis by simp
    qed
  qed
qed

lemma attempt_level_collapsed:
  assumes "collapsed lat1 lon1 lat2 lon2 level"
  shows "attempt_level net lat1 lon1 lat2 lon2 level w = (print CannotFindImagery w, Return False)"
  using assms by (auto simp: attempt_level_def collapsed_def split: prod.splits)

lemma max_resolution_cases:
  assumes "max_resolution_imagery_retrieval net lat1 lon1 lat2 lon2 w = (w', r)"
  obtains r' where "attempt_level net lat1 lon1 lat2 lon2 MAXLEVEL w = (w', r')"
    and "r = (case r' of Normal u \<Rightarrow> Inr False | Return b \<Rightarrow> Inr b | Raise e \<Rightarrow> Inl e)"
proof -
  obtain w1 r' where a: "attempt_level net lat1 lon1 lat2 lon2 MAXLEVEL w = (w1, r')"
    by (cases "attempt_level net lat1 lon1 lat2 lon2 MAXLEVEL w")
  then have "w' = w1" "r = (case r' of Normal u \<Rightarrow> Inr False | Return b \<Rightarrow> Inr b | Raise e \<Rightarrow> Inl e)"
    using assms
    by (auto simp: max_resolution_imagery_retrieval_def search_levels_MAXLEVEL split: outcome.splits)
  then show ?thesis using a that by simp
qed

lemma tile_grid_iff:
  "(x, y) \<in> set (tile_grid tileX1 tileY1 tileX2 tileY2) \<longleftrightarrow>
     x \<in> {tileX1..tileX2} \<and> y \<in> {tileY1..tileY2}"
  by (force simp: tile_grid_def)

lemma tile_unavailable_not_ok: "tile_unavailable net w q \<Longrightarrow> \<not> tile_ok net w q"
  by (auto simp: tile_unavailable_def tile_ok_def split: option.splits)

lemma per_row_mosaic_size:
  "width (per_row_mosaic tile tileX1 tileY1 tileX2 tileY2) = (tileX2 - tileX1 + 1) * TILESIZE"
  "height (per_row_mosaic tile tileX1 tileY1 tileX2 tileY2) = (tileY2 - tileY1 + 1) * TILESIZE"
proof -
  have "width (fold (\<lambda>tileY result. paste result (f tileY) (g tileY)) ys r0) = width r0
      \<and> height (fold (\<lambda>tileY result. paste result (f tileY) (g tileY)) ys r0) = height r0"
    for f :: "int \<Rightarrow> image" and g ys r0
    by (induction ys arbitrary: r0) simp_all
  then show "width (per_row_mosaic tile tileX1 tileY1 tileX2 tileY2) = (tileX2 - tileX1 + 1) * TILESIZE"
    "height (per_row_mosaic tile tileX1 tileY1 tileX2 tileY2) = (tileY2 - tileY1 + 1) * TILESIZE"
    by (simp_all add: per_row_mosaic_def blank_def)
qed

lemma success_effect:
  assumes run: "max_resolution_imagery_retrieval net lat1 lon1 lat2 lon2 w = (w', Inr True)"
    and tr: "tile_range lat1 lon1 lat2 lon2 MAXLEVEL = (tileX1, tileY1, tileX2, tileY2)"
  shows "tileX1 \<le> tileX2" and "tileY1 \<le> tileY2"
    and "saved w' = saved w @ [((lat1, lon1),
           per_row_mosaic (fetched_tile net MAXLEVEL) tileX1 tileY1 tileX2 tileY2)]"
    and "stdout w' = stdout w @ [ImageSaved lat1 lon1]"
    and "\<forall>y\<in>{tileY1..tileY2}. \<forall>x\<in>{tileX1..tileX2}. tile_ok net w (tileXY_to_quadkey x y MAXLEVEL)"
proof -
  from run obtain r' where a: "attempt_level net lat1 lon1 lat2 lon2 MAXLEVEL w = (w', r')"
    and r: "Inr True = (case r' of Normal u \<Rightarrow> Inr False | Return b \<Rightarrow> Inr b | Raise e \<Rightarrow> Inl e)"
    by (rule max_resolution_cases)
  have r': "r' = Return True"
    using r by (cases r') simp_all
  have nc: "\<not> collapsed lat1 lon1 lat2 lon2 MAXLEVEL"
    using a r' attempt_level_collapsed [of lat1 lon1 lat2 lon2 MAXLEVEL net w] by auto
  from attempt_level_effect [OF a nc tr] r'
  have "tileX1 \<le> tileX2 \<and> tileY1 \<le> tileY2 \<and>
        saved w' = saved w @ [((lat1, lon1),
           per_row_mosaic (fetched_tile net MAXLEVEL) tileX1 tileY1 tileX2 tileY2)] \<and>
        stdout w' = stdout w @ [ImageSaved lat1 lon1] \<and>
        (\<forall>y\<in>{tileY1..tileY2}. \<forall>x\<in>{tileX1..tileX2}. tile_ok net w (tileXY_to_quadkey x y MAXLEVEL))"
    by simp
  then show "tileX1 \<le> tileX2" and "tileY1 \<le> tileY2"
    and "saved w' = saved w @ [((lat1, lon1),
           per_row_mosaic (fetched_tile net MAXLEVEL) tileX1 tileY1 tileX2 tileY2)]"
    and "stdout w' = stdout w @ [ImageSaved lat1 lon1]"
    and "\<forall>y\<in>{tileY1..tileY2}. \<forall>x\<in>{tileX1..tileX2}. tile_ok net w (tileXY_to_quadkey x y MAXLEVEL)"
    by simp_all
qed

text \<open>
  Claim C3. When the function returns True, it has saved one raster, whose width is
  \<open>(tileX2 - tileX1 + 1) * 256\<close> and whose height is \<open>(tileY2 - tileY1 + 1) * 256\<close>; both
  are positive multiples of 256.
\<close>

theorem assembled_raster_size:
  assumes run: "max_resolution_imagery_retrieval net lat1 lon1 lat2 lon2 w = (w', Inr True)"
    and tr: "tile_range lat1 lon1 lat2 lon2 MAXLEVEL = (tileX1, tileY1, tileX2, tileY2)"
  shows "\<exists>raster. saved w' = saved w @ [((lat1, lon1), raster)] \<and>
           width raster = (tileX2 - tileX1 + 1) * 256 \<and>
           height raster = (tileY2 - tileY1 + 1) * 256 \<and>
           0 < width raster \<and> 0 < height raster \<and>
           256 dvd width raster \<and> 256 dvd height raster"
proof -
  let ?raster = "per_row_mosaic (fetched_tile net MAXLEVEL) tileX1 tileY1 tileX2 tileY2"
  note s = success_effect [OF run tr]
  have "width ?raster = (tileX2 - tileX1 + 1) * 256" "height ?raster = (tileY2 - tileY1 + 1) * 256"
    by (simp_all add: per_row_mosaic_size TILESIZE_def)
  moreover have "0 < (tileX2 - tileX1 + 1) * 256" "0 < (tileY2 - tileY1 + 1) * 256"
    using s(1,2) by simp_all
  ultimately show ?thesis using s(3) by simp
qed

lemma image_eq_pixel:
  assumes "image_eq a b" and "0 \<le> x" "x < width a" "0 \<le> y" "y < height a"
  shows "pixels a x y = pixels b x y"
proof -
  let ?ra = "\<lambda>y. map (\<lambda>x. pixels a x y) [0..width a - 1]"
  let ?rb = "\<lambda>y. map (\<lambda>x. pixels b x y) [0..width a - 1]"
  have size: "width b = width a" "height b = height a" and tb: "tobytes a = tobytes b"
    using assms(1) by (simp_all add: image_eq_def)
  have "concat (map ?ra [0..height a - 1]) = concat (map ?rb [0..height a - 1])"
    using tb unfolding tobytes_def size .
  moreover have "\<forall>(r, r') \<in> set (zip (map ?ra [0..height a - 1]) (map ?rb [0..height a - 1])).
                   length r = length r'"
    by (auto simp: zip_map_map)
  ultimately have "map ?ra [0..height a - 1] = map ?rb [0..height a - 1]"
    by (intro concat_injective) simp_all
  then have "\<forall>y\<in>set [0..height a - 1]. \<forall>x\<in>set [0..width a - 1]. pixels a x y = pixels b x y"
    by (simp only: map_eq_conv)
  moreover have "y \<in> set [0..height a - 1]" "x \<in> set [0..width a - 1]"
    using assms by simp_all
  ultimately show ?thesis by blast
qed

lemma white_tile_valid: "\<not> image_eq white_tile camera_tile"
proof
  assume "image_eq white_tile camera_tile"
  from image_eq_pixel [OF this, of 0 0]
  show False by (simp add: white_tile_def camera_tile_def)
qed

lemma all_ok_success:
  assumes nc: "\<not> collapsed lat1 lon1 lat2 lon2 MAXLEVEL"
    and tr: "tile_range lat1 lon1 lat2 lon2 MAXLEVEL = (tileX1, tileY1, tileX2, tileY2)"
    and ordered: "tileX1 \<le> tileX2" "tileY1 \<le> tileY2"
    and ok: "\<forall>y\<in>{tileY1..tileY2}. \<forall>x\<in>{tileX1..tileX2}. tile_ok net w (tileXY_to_quadkey x y MAXLEVEL)"
  shows "snd (max_resolution_imagery_retrieval net lat1 lon1 lat2 lon2 w) = Inr True"
proof -
  obtain w' r where run: "max_resolution_imagery_retrieval net lat1 lon1 lat2 lon2 w = (w', r)"
    by (cases "max_resolution_imagery_retrieval net lat1 lon1 lat2 lon2 w")
  from run obtain r' where a: "attempt_level net lat1 lon1 lat2 lon2 MAXLEVEL w = (w', r')"
    and r: "r = (case r' of Normal u \<Rightarrow> Inr False | Return b \<Rightarrow> Inr b | Raise e \<Rightarrow> Inl e)"
    by (rule max_resolution_cases)
  from attempt_level_effect [OF a nc tr] ok ordered
  have "r' = Return True" by auto
  then show ?thesis using run r by simp
qed

lemma clip_floor_ge:
  assumes "real_of_int k \<le> v" and "real_of_int k \<le> hi"
  shows "k \<le> \<lfloor>clip v lo hi\<rfloor>"
proof -
  have "real_of_int k \<le> clip v lo hi"
    using assms by (simp add: clip_def)
  then show ?thesis by (simp add: le_floor_iff)
qed

lemma pixel_0_0: "latlong_to_pixelXY 0 0 MAXLEVEL = (1073741824, 1073741824)"
proof -
  have "\<lfloor>clip (1073741824.5) 0 2147483647\<rfloor> = (1073741824 :: int)"
    by (simp add: clip_def)
  then show ?thesis
    by (simp add: latlong_to_pixelXY_def MINLAT_def MAXLAT_def MINLON_def MAXLON_def
          map_size_def MAXLEVEL_def Let_def clip_def)
qed

lemma ln3_ge_half: "1 / 2 \<le> ln (3 :: real)"
proof -
  have "exp (1 / 2) \<le> (2 :: real)" by (rule exp_half_le2)
  then have "exp (1 / 2) \<le> (3 :: real)" by simp
  moreover have "1 / 2 \<le> ln (3 :: real) \<longleftrightarrow> exp (1 / 2) \<le> (3 :: real)"
    by (rule ln_ge_iff) simp
  ultimately show ?thesis by blast
qed

lemma pixel_m30_1:
  "1073741826 \<le> fst (latlong_to_pixelXY (- 30) 1 MAXLEVEL)"
  "1073741826 \<le> snd (latlong_to_pixelXY (- 30) 1 MAXLEVEL)"
proof -
  have s: "sin (- 30 * pi / 180) = - (1 / 2)"
  proof -
    have "- 30 * pi / 180 = - (pi / 6)" by simp
    then show ?thesis by (simp only: sin_minus sin_30)
  qed
  have l: "ln ((1 + - (1 / 2)) / (1 - - (1 / 2))) = - ln (3 :: real)"
  proof -
    have "(1 + - (1 / 2)) / (1 - - (1 / 2)) = inverse (3 :: real)" by simp
    then show ?thesis by (simp only: ln_inverse)
  qed
  define t where "t = ln 3 / pi"
  have "(1 / 2) / 4 \<le> ln 3 / pi"
    using ln3_ge_half pi_less_4 pi_gt_zero by (intro frac_le) simp_all
  then have t: "1 / 8 \<le> t" by (simp add: t_def)
  have "(- ln 3) / (4 * pi) = - (t / 4)" by (simp add: t_def)
  then have "(0.5 - (- ln 3) / (4 * pi)) * 2147483648 + 0.5 = 1073741824.5 + 536870912 * t"
    by simp
  then have y: "real_of_int 1073741826 \<le> (0.5 - (- ln 3) / (4 * pi)) * 2147483648 + 0.5"
    using t by simp
  have x: "real_of_int 1073741826 \<le> ((1 + 180) / 360) * 2147483648 + 0.5"
    by simp
  have c: "clip (- 30) MINLAT MAXLAT = - 30" "clip 1 MINLON MAXLON = 1"
    by (simp_all add: clip_def MINLAT_def MAXLAT_def MINLON_def MAXLON_def)
  have m: "real_of_int (map_size MAXLEVEL) = 2147483648"
    by (simp add: map_size_def MAXLEVEL_def)
  show "1073741826 \<le> fst (latlong_to_pixelXY (- 30) 1 MAXLEVEL)"
    unfolding latlong_to_pixelXY_def Let_def c m fst_conv
    by (rule clip_floor_ge [OF x]) simp
  show "1073741826 \<le> snd (latlong_to_pixelXY (- 30) 1 MAXLEVEL)"
    unfolding latlong_to_pixelXY_def Let_def c m snd_conv s l
    by (rule clip_floor_ge [OF y]) simp
qed

lemma box0_range:
  obtains tileX2 tileY2 where
    "tile_range 0 0 (- 30) 1 MAXLEVEL = (4194304, 4194304, tileX2, tileY2)"
    and "4194304 \<le> tileX2" and "4194304 \<le> tileY2"
    and "\<not> collapsed 0 0 (- 30) 1 MAXLEVEL"
proof -
  obtain px py where p: "latlong_to_pixelXY (- 30) 1 MAXLEVEL = (px, py)"
    by (cases "latlong_to_pixelXY (- 30) 1 MAXLEVEL")
  have ge: "1073741826 \<le> px" "1073741826 \<le> py"
    using pixel_m30_1 p by simp_all
  have "1073741826 div 256 \<le> px div 256" "1073741826 div 256 \<le> py div 256"
    using ge by (simp_all add: zdiv_mono1)
  then have t: "4194304 \<le> px div 256" "4194304 \<le> py div 256"
    by simp_all
  have "tile_range 0 0 (- 30) 1 MAXLEVEL = (4194304, 4194304, px div 256, py div 256)"
    by (simp add: tile_range_def pixel_0_0 p pixelXY_to_tileXY_def)
  moreover have "\<not> collapsed 0 0 (- 30) 1 MAXLEVEL"
    using ge by (simp add: collapsed_def pixel_0_0 p)
  ultimately show ?thesis using t that by blast
qed

theorem assembled_raster_size_witness:
  "\<exists>tileX2 tileY2 w' raster.
     max_resolution_imagery_retrieval (\<lambda>q. Some white_tile) 0 0 (- 30) 1 world1 = (w', Inr True) \<and>
     tile_range 0 0 (- 30) 1 MAXLEVEL = (4194304, 4194304, tileX2, tileY2) \<and>
     saved w' = saved world1 @ [((0, 0), raster)] \<and>
     width raster = (tileX2 - 4194304 + 1) * 256 \<and>
     height raster = (tileY2 - 4194304 + 1) * 256 \<and>
     0 < width raster \<and> 0 < height raster \<and>
     256 dvd width raster \<and> 256 dvd height raster"
proof -
  obtain tileX2 tileY2 where tr: "tile_range 0 0 (- 30) 1 MAXLEVEL = (4194304, 4194304, tileX2, tileY2)"
    and le: "4194304 \<le> tileX2" "4194304 \<le> tileY2"
    and nc: "\<not> collapsed 0 0 (- 30) 1 MAXLEVEL"
    by (rule box0_range)
  have ok: "\<forall>y\<in>{4194304..tileY2}. \<forall>x\<in>{4194304..tileX2}.
              tile_ok (\<lambda>q. Some white_tile) world1 (tileXY_to_quadkey x y MAXLEVEL)"
    using white_tile_valid by (simp add: tile_ok_def sentinel_def world1_def)
  from all_ok_success [OF nc tr le ok]
  obtain w' where run: "max_resolution_imagery_retrieval (\<lambda>q. Some white_tile) 0 0 (- 30) 1 world1 = (w', Inr True)"
    by (cases "max_resolution_imagery_retrieval (\<lambda>q. Some white_tile) 0 0 (- 30) 1 world1") simp
  from assembled_raster_size [OF run tr] run tr
  show ?thesis by blast
qed

section \<open>The 200 m box at the origin\<close>

lemma mercator_sin:
  "sin (pi / 2 - 2 * arctan q) = (1 - q\<^sup>2) / (1 + q\<^sup>2)"
proof -
  have pos: "0 < 1 + q\<^sup>2" by (simp add: add_pos_nonneg)
  have "sin (pi / 2 - 2 * arctan q) = cos (2 * arctan q)"
    by (simp add: cos_sin_eq)
  also have "\<dots> = 2 * (cos (arctan q))\<^sup>2 - 1"
    by (rule cos_double_cos)
  also have "(cos (arctan q))\<^sup>2 = 1 / (1 + q\<^sup>2)"
    using pos by (simp add: cos_arctan power_divide)
  also have "2 * (1 / (1 + q\<^sup>2)) - 1 = (1 - q\<^sup>2) / (1 + q\<^sup>2)"
    using pos by (simp add: field_simps)
  finally show ?thesis .
qed

lemma mercator_roundtrip:
  "ln ((1 + sin (pi / 2 - 2 * arctan (exp (- t)))) / (1 - sin (pi / 2 - 2 * arctan (exp (- t))))) = 2 * t"
proof -
  define a where "a = (exp (- t))\<^sup>2"
  have a: "0 < a" by (simp add: a_def)
  have n: "1 + (1 - a) / (1 + a) = 2 / (1 + a)"
    using a by (simp add: field_simps)
  have d: "1 - (1 - a) / (1 + a) = 2 * a / (1 + a)"
    using a by (simp add: field_simps)
  have "0 < a * 2 + a * (a * 2)"
    using a by (intro add_pos_pos mult_pos_pos) simp_all
  then have nz: "a * 2 + a * (a * 2) \<noteq> 0" by simp
  have "(1 + (1 - a) / (1 + a)) / (1 - (1 - a) / (1 + a)) = 1 / a"
    unfolding n d using a nz by (simp add: field_simps)
  moreover have "a = exp (2 * (- t))"
    unfolding a_def by (rule exp_double [symmetric])
  then have "a = 1 / exp (2 * t)"
    by (simp add: exp_minus')
  then have "1 / a = exp (2 * t)"
    by simp
  ultimately have "(1 + (1 - a) / (1 + a)) / (1 - (1 - a) / (1 + a)) = exp (2 * t)"
    by simp
  then show ?thesis
    by (simp add: mercator_sin a_def)
qed

lemma arctan_sqrt3: "arctan (sqrt 3) = pi / 3"
proof (rule arctan_unique)
  show "- (pi / 2) < pi / 3" using pi_gt_zero by linarith
  show "pi / 3 < pi / 2" using pi_gt_zero by linarith
  show "tan (pi / 3) = sqrt 3" by (rule tan_60)
qed

lemma arctan_inverse_sqrt3: "arctan (1 / sqrt 3) = pi / 6"
proof (rule arctan_unique)
  show "- (pi / 2) < pi / 6" using pi_gt_zero by linarith
  show "pi / 6 < pi / 2" using pi_gt_zero by linarith
  show "tan (pi / 6) = 1 / sqrt 3" by (rule tan_30)
qed

lemma exp_small:
  assumes "\<bar>t\<bar> \<le> 1 / 20"
  shows "1 / sqrt 3 \<le> exp t" and "exp t \<le> sqrt 3"
proof -
  have up: "exp u \<le> sqrt 3" if "0 \<le> u" "u \<le> 1 / 20" for u :: real
  proof -
    have "exp u \<le> 1 + u + u\<^sup>2" using that by (intro exp_bound) simp_all
    also have "\<dots> \<le> 1 + 1 / 20 + (1 / 20)\<^sup>2"
      using that by (intro add_mono power_mono) simp_all
    also have "\<dots> \<le> sqrt 3" by (rule real_le_rsqrt) (simp add: power2_eq_square)
    finally show ?thesis .
  qed
  have one: "1 \<le> sqrt 3" by simp
  show "exp t \<le> sqrt 3"
  proof (cases "0 \<le> t")
    case True
    then show ?thesis using up [of t] assms by simp
  next
    case False
    then have "exp t \<le> 1" by simp
    then show ?thesis using one by linarith
  qed
  show "1 / sqrt 3 \<le> exp t"
  proof (cases "0 \<le> t")
    case True
    then have "1 \<le> exp t" by simp
    moreover have "1 / sqrt 3 \<le> 1" using one by simp
    ultimately show ?thesis by linarith
  next
    case False
    then have "exp (- t) \<le> sqrt 3" using up [of "- t"] assms by simp
    then have "1 / sqrt 3 \<le> 1 / exp (- t)"
      by (intro divide_left_mono) simp_all
    then show ?thesis by (simp add: exp_minus')
  qed
qed

lemma lat_of_range:
  assumes "\<bar>t\<bar> \<le> 1 / 20"
  shows "- 30 \<le> 90 - 360 * arctan (exp (- t)) / pi"
    and "90 - 360 * arctan (exp (- t)) / pi \<le> 30"
proof -
  have "\<bar>- t\<bar> \<le> 1 / 20" using assms by simp
  note e = exp_small [OF this]
  have "arctan (exp (- t)) \<le> pi / 3"
    using arctan_monotone' [OF e(2)] by (simp add: arctan_sqrt3)
  then have "360 * arctan (exp (- t)) / pi \<le> 360 * (pi / 3) / pi"
    by (intro divide_right_mono mult_left_mono) simp_all
  then show "- 30 \<le> 90 - 360 * arctan (exp (- t)) / pi" by simp
  have "pi / 6 \<le> arctan (exp (- t))"
    using arctan_monotone' [OF e(1)] by (simp add: arctan_inverse_sqrt3)
  then have "360 * (pi / 6) / pi \<le> 360 * arctan (exp (- t)) / pi"
    by (intro divide_right_mono mult_left_mono) simp_all
  then show "90 - 360 * arctan (exp (- t)) / pi \<le> 30" by simp
qed

lemma pixelY_of_lat:
  assumes "\<bar>t\<bar> \<le> 1 / 20"
  shows "snd (latlong_to_pixelXY (90 - 360 * arctan (exp (- t)) / pi) lon level) =
           \<lfloor>clip ((0.5 - t / (2 * pi)) * real_of_int (map_size level) + 0.5) 0
              (real_of_int (map_size level) - 1)\<rfloor>"
proof -
  let ?lat = "90 - 360 * arctan (exp (- t)) / pi"
  note r = lat_of_range [OF assms]
  have c: "clip ?lat MINLAT MAXLAT = ?lat"
    using r by (simp add: clip_def MINLAT_def MAXLAT_def)
  have "?lat * pi / 180 = pi / 2 - 2 * arctan (exp (- t))"
    by (simp add: field_simps)
  then have l: "ln ((1 + sin (?lat * pi / 180)) / (1 - sin (?lat * pi / 180))) = 2 * t"
    by (simp only: mercator_roundtrip)
  have "2 * t / (4 * pi) = t / (2 * pi)" by simp
  then show ?thesis
    unfolding latlong_to_pixelXY_def Let_def c l snd_conv by simp
qed

lemma pixelX_of_lon:
  assumes "- 180 \<le> lon" "lon \<le> 180"
  shows "fst (latlong_to_pixelXY lat lon level) =
           \<lfloor>clip ((lon + 180) / 360 * real_of_int (map_size level) + 0.5) 0
              (real_of_int (map_size level) - 1)\<rfloor>"
proof -
  have c: "clip lon MINLON MAXLON = lon"
    using assms by (simp add: clip_def MINLON_def MAXLON_def)
  show ?thesis
    unfolding latlong_to_pixelXY_def Let_def c fst_conv by simp
qed

lemma floor_clip_bounds:
  fixes lo hi :: int and v lim :: real
  assumes "real_of_int lo \<le> v" "v < real_of_int hi + 1" "0 \<le> lo" "real_of_int hi \<le> lim"
  shows "lo \<le> \<lfloor>clip v 0 lim\<rfloor>" and "\<lfloor>clip v 0 lim\<rfloor> \<le> hi"
proof -
  have "real_of_int lo < real_of_int hi + 1" using assms(1,2) by linarith
  then have "lo \<le> hi" by linarith
  then have lt: "real_of_int lo \<le> lim" using assms(4) by linarith
  have v0: "0 \<le> v" using assms(1,3) by linarith
  have c: "clip v 0 lim = min v lim" using v0 by (simp add: clip_def)
  have "real_of_int lo \<le> min v lim" using assms(1) lt by simp
  then show "lo \<le> \<lfloor>clip v 0 lim\<rfloor>" unfolding c by (simp add: le_floor_iff)
  have "min v lim < real_of_int hi + 1" using assms(2) by simp
  then show "\<lfloor>clip v 0 lim\<rfloor> \<le> hi" unfolding c by (simp add: floor_le_iff)
qed

lemma half_side:
  "4208 < 107374182400 / (pi * 6378137)" "107374182400 / (pi * 6378137) < 8418"
proof -
  have "107374182400 / (4 * 6378137) < 107374182400 / (pi * 6378137)"
    using pi_less_4 pi_gt_zero by (intro divide_strict_left_mono mult_pos_pos) simp_all
  then show "4208 < 107374182400 / (pi * 6378137)" by simp
  have "107374182400 / (pi * 6378137) \<le> 107374182400 / (2 * 6378137)"
    using pi_ge_two by (intro divide_left_mono mult_pos_pos) simp_all
  then show "107374182400 / (pi * 6378137) < 8418" by simp
qed

lemma map_size_MAXLEVEL: "real_of_int (map_size MAXLEVEL) = 2147483648"
  by (simp add: map_size_def MAXLEVEL_def)

lemma east_small: "0 \<le> box_east" "box_east \<le> 1"
proof -
  show "0 \<le> box_east" by (simp add: box_east_def)
  have "18000 / (pi * 6378137) \<le> 18000 / (2 * 6378137)"
    using pi_ge_two by (intro divide_left_mono mult_pos_pos) simp_all
  also have "\<dots> \<le> 1" by simp
  finally show "box_east \<le> 1" by (simp add: box_east_def)
qed

lemma north_west_pixels:
  "1073733406 \<le> fst (latlong_to_pixelXY box_north box_west MAXLEVEL)"
  "fst (latlong_to_pixelXY box_north box_west MAXLEVEL) \<le> 1073737616"
  "1073733406 \<le> snd (latlong_to_pixelXY box_north box_west MAXLEVEL)"
  "snd (latlong_to_pixelXY box_north box_west MAXLEVEL) \<le> 1073737616"
proof -
  define h :: real where "h = 107374182400 / (pi * 6378137)"
  have h1: "4208 < h" unfolding h_def by (rule half_side(1))
  have h2: "h < 8418" unfolding h_def by (rule half_side(2))
  note h = h1 h2
  have "box_west = - box_east" by (simp add: box_west_def box_east_def)
  then have w: "- 180 \<le> box_west" "box_west \<le> 180"
    using east_small by linarith+
  have x: "(box_west + 180) / 360 * 2147483648 + 0.5 = 1073741824.5 - h"
    by (simp add: box_west_def h_def field_simps)
  have t: "\<bar>100 / 6378137 :: real\<bar> \<le> 1 / 20" by simp
  have y: "(0.5 - (100 / 6378137) / (2 * pi)) * 2147483648 + 0.5 = 1073741824.5 - h"
    by (simp add: h_def field_simps)
  have lo: "real_of_int 1073733406 \<le> 1073741824.5 - h"
    and hi: "1073741824.5 - h < real_of_int 1073737616 + 1"
    using h by simp_all
  note b = floor_clip_bounds [OF lo hi, of "2147483648 - 1"]
  show "1073733406 \<le> fst (latlong_to_pixelXY box_north box_west MAXLEVEL)"
    "fst (latlong_to_pixelXY box_north box_west MAXLEVEL) \<le> 1073737616"
    unfolding pixelX_of_lon [OF w] map_size_MAXLEVEL x using b by simp_all
  show "1073733406 \<le> snd (latlong_to_pixelXY box_north box_west MAXLEVEL)"
    "snd (latlong_to_pixelXY box_north box_west MAXLEVEL) \<le> 1073737616"
    unfolding box_north_def pixelY_of_lat [OF t] map_size_MAXLEVEL y using b by simp_all
qed

lemma south_east_pixels:
  "1073746032 \<le> fst (latlong_to_pixelXY box_south box_east MAXLEVEL)"
  "fst (latlong_to_pixelXY box_south box_east MAXLEVEL) \<le> 1073750242"
  "1073746032 \<le> snd (latlong_to_pixelXY box_south box_east MAXLEVEL)"
  "snd (latlong_to_pixelXY box_south box_east MAXLEVEL) \<le> 1073750242"
proof -
  define h :: real where "h = 107374182400 / (pi * 6378137)"
  have h1: "4208 < h" unfolding h_def by (rule half_side(1))
  have h2: "h < 8418" unfolding h_def by (rule half_side(2))
  note h = h1 h2
  have e: "- 180 \<le> box_east" "box_east \<le> 180"
    using east_small by linarith+
  have x: "(box_east + 180) / 360 * 2147483648 + 0.5 = 1073741824.5 + h"
    by (simp add: box_east_def h_def field_simps)
  have t: "\<bar>- (100 / 6378137) :: real\<bar> \<le> 1 / 20" by simp
  have y: "(0.5 - (- (100 / 6378137)) / (2 * pi)) * 2147483648 + 0.5 = 1073741824.5 + h"
    by (simp add: h_def field_simps)
  have s: "box_south = 90 - 360 * arctan (exp (- (- (100 / 6378137)))) / pi"
    by (simp add: box_south_def)
  have lo: "real_of_int 1073746032 \<le> 1073741824.5 + h"
    and hi: "1073741824.5 + h < real_of_int 1073750242 + 1"
    using h by simp_all
  note b = floor_clip_bounds [OF lo hi, of "2147483648 - 1"]
  show "1073746032 \<le> fst (latlong_to_pixelXY box_south box_east MAXLEVEL)"
    "fst (latlong_to_pixelXY box_south box_east MAXLEVEL) \<le> 1073750242"
    unfolding pixelX_of_lon [OF e] map_size_MAXLEVEL x using b by simp_all
  show "1073746032 \<le> snd (latlong_to_pixelXY box_south box_east MAXLEVEL)"
    "snd (latlong_to_pixelXY box_south box_east MAXLEVEL) \<le> 1073750242"
    unfolding s pixelY_of_lat [OF t] map_size_MAXLEVEL y using b by simp_all
qed

lemma equator_box_range:
  obtains tileX1 tileY1 tileX2 tileY2 where
    "tile_range box_north box_west box_south box_east MAXLEVEL = (tileX1, tileY1, tileX2, tileY2)"
    and "4194271 \<le> tileX1" "tileX1 \<le> 4194287" "4194320 \<le> tileX2" "tileX2 \<le> 4194336"
    and "4194271 \<le> tileY1" "tileY1 \<le> 4194287" "4194320 \<le> tileY2" "tileY2 \<le> 4194336"
    and "\<not> collapsed box_north box_west box_south box_east MAXLEVEL"
proof -
  obtain px1 py1 where p1: "latlong_to_pixelXY box_north box_west MAXLEVEL = (px1, py1)"
    by (cases "latlong_to_pixelXY box_north box_west MAXLEVEL")
  obtain px2 py2 where p2: "latlong_to_pixelXY box_south box_east MAXLEVEL = (px2, py2)"
    by (cases "latlong_to_pixelXY box_south box_east MAXLEVEL")
  have b1: "1073733406 \<le> px1" "px1 \<le> 1073737616" "1073733406 \<le> py1" "py1 \<le> 1073737616"
    using north_west_pixels p1 by simp_all
  have b2: "1073746032 \<le> px2" "px2 \<le> 1073750242" "1073746032 \<le> py2" "py2 \<le> 1073750242"
    using south_east_pixels p2 by simp_all
  have tr: "tile_range box_north box_west box_south box_east MAXLEVEL =
          (px1 div 256, py1 div 256, px2 div 256, py2 div 256)"
    by (simp add: tile_range_def p1 p2 pixelXY_to_tileXY_def)
  have nc: "\<not> collapsed box_north box_west box_south box_east MAXLEVEL"
    using b1 b2 by (simp add: collapsed_def p1 p2)
  have "4194271 \<le> px1 div 256" "px1 div 256 \<le> 4194287" "4194320 \<le> px2 div 256" "px2 div 256 \<le> 4194336"
    "4194271 \<le> py1 div 256" "py1 div 256 \<le> 4194287" "4194320 \<le> py2 div 256" "py2 div 256 \<le> 4194336"
    using b1 b2 zdiv_mono1 [of 1073733406 px1 256] zdiv_mono1 [of px1 1073737616 256]
      zdiv_mono1 [of 1073746032 px2 256] zdiv_mono1 [of px2 1073750242 256]
      zdiv_mono1 [of 1073733406 py1 256] zdiv_mono1 [of py1 1073737616 256]
      zdiv_mono1 [of 1073746032 py2 256] zdiv_mono1 [of py2 1073750242 256]
    by simp_all
  with tr nc show ?thesis using that by blast
qed

lemma pixel_to_latlong_in_range:
  assumes "0 \<le> p" "p \<le> 2147483647" "0 \<le> q" "q \<le> 2147483647"
  shows "pixelXY_to_latlong p q MAXLEVEL =
           (90 - 360 * arctan (exp (- (0.5 - q / 2147483648) * 2 * pi)) / pi,
            360 * (p / 2147483648 - 0.5))"
proof -
  have c: "clip p 0 (2147483648 - 1) = p" "clip q 0 (2147483648 - 1) = q"
    using assms by (simp_all add: clip_def)
  show ?thesis
    unfolding pixelXY_to_latlong_def Let_def map_size_MAXLEVEL c ..
qed

lemma equator_box_computed:
  "snd (AerialImageRetrieval_calculate_bounding_box 200 0 0 w) =
     Inr (box_north, box_west, box_south, box_east)"
proof -
  define h :: real where "h = 107374182400 / (pi * 6378137)"
  have h1: "4208 < h" unfolding h_def by (rule half_side(1))
  have h2: "h < 8418" unfolding h_def by (rule half_side(2))
  note h = h1 h2
  have g: "ground_resolution 0 MAXLEVEL = 2 * pi * 6378137 / 2147483648"
    by (simp add: ground_resolution_def clip_def MINLAT_def MAXLAT_def EARTHRADIUS_def
          map_size_MAXLEVEL)
  have g0: "ground_resolution 0 MAXLEVEL \<noteq> 0" unfolding g by simp
  have half: "100 / ground_resolution 0 MAXLEVEL = h"
    unfolding g h_def by (simp add: field_simps)
  have c1: "clip (1073741824 - h) 0 2147483647 = 1073741824 - h"
    and c2: "clip (1073741824 + h) 0 2147483647 = 1073741824 + h"
    using h by (simp_all add: clip_def)
  have r1: "0 \<le> 1073741824 - h" "1073741824 - h \<le> 2147483647"
    and r2: "0 \<le> 1073741824 + h" "1073741824 + h \<le> 2147483647"
    using h by simp_all
  have a1: "- (0.5 - (1073741824 - h) / 2147483648) * 2 * pi = - (100 / 6378137)"
    by (simp add: h_def field_simps)
  have b1: "360 * ((1073741824 - h) / 2147483648 - 0.5) = - (18000 / (pi * 6378137))"
    by (simp add: h_def field_simps)
  have a2: "- (0.5 - (1073741824 + h) / 2147483648) * 2 * pi = 100 / 6378137"
    by (simp add: h_def field_simps)
  have b2: "360 * ((1073741824 + h) / 2147483648 - 0.5) = 18000 / (pi * 6378137)"
    by (simp add: h_def field_simps)
  have l1: "pixelXY_to_latlong (1073741824 - h) (1073741824 - h) MAXLEVEL = (box_north, box_west)"
    unfolding pixel_to_latlong_in_range [OF r1 r1] a1 b1 box_north_def box_west_def ..
  have l2: "pixelXY_to_latlong (1073741824 + h) (1073741824 + h) MAXLEVEL = (box_south, box_east)"
    unfolding pixel_to_latlong_in_range [OF r2 r2] a2 b2 box_south_def box_east_def ..
  show ?thesis
    unfolding AerialImageRetrieval_calculate_bounding_box_def Let_def
    using g0 by (simp add: half pixel_0_0 map_size_MAXLEVEL c1 c2 l1 l2)
qed

section \<open>How the assembly is given up\<close>

lemma tile_is_sentinel_cong:
  "sentinel net w' = sentinel net w \<Longrightarrow> tile_is_sentinel net w' q = tile_is_sentinel net w q"
  by (simp add: tile_is_sentinel_def split: option.splits)

lemma fetch_tile_row_failure:
  assumes "fetch_tile_row net level tileY xs imagelist w = (w', r)"
  shows "case r of
           Normal imgs \<Rightarrow> True
         | Return b \<Rightarrow>
             (\<exists>x\<in>set xs. tile_is_sentinel net w (tileXY_to_quadkey x tileY level) \<and>
                stdout w' = stdout w @ [CannotFindTile level x tileY])
         | Raise e \<Rightarrow> stdout w' = stdout w \<and>
             ((\<exists>x\<in>set xs. net (tileXY_to_quadkey x tileY level) = None) \<or> sentinel net w = None)"
  using assms
proof (induction xs arbitrary: imagelist w)
  case Nil
  then show ?case by auto
next
  case (Cons x xs)
  let ?q = "tileXY_to_quadkey x tileY level"
  let ?w1 = "w\<lparr>requests := requests w @ [?q]\<rparr>"
  show ?case
  proof (cases "net ?q")
    case None
    have "w' = ?w1" "r = Raise URLError"
      using Cons.prems None by (simp_all add: download_image_def)
    then show ?thesis using None by simp
  next
    case (Some im)
    obtain w2 r2 where v: "is_valid_image net im ?w1 = (w2, r2)"
      by (cases "is_valid_image net im ?w1")
    note v1 = is_valid_image_effect [OF v]
    have w2: "stdout w2 = stdout w" "sentinel net w2 = sentinel net w"
      using v1 by simp_all
    have step: "fetch_tile_row net level tileY (x # xs) imagelist w =
      (case r2 of
         Inl e \<Rightarrow> (w2, Raise e)
       | Inr valid \<Rightarrow>
           if valid then fetch_tile_row net level tileY xs (imagelist @ [im]) w2
           else (print (CannotFindTile level x tileY) w2, Return False))"
      using Some v by (simp add: download_image_def)
    show ?thesis
    proof (cases "sentinel net w")
      case None
      have "r2 = Inl URLError" using v1(5) None by simp
      then have "w' = w2" "r = Raise URLError"
        using Cons.prems step by simp_all
      then show ?thesis using None w2 by simp
    next
      case sent: (Some s)
      have r2: "r2 = Inr (\<not> image_eq im s)" using v1(5) sent by simp
      show ?thesis
      proof (cases "image_eq im s")
        case True
        have sen: "tile_is_sentinel net w ?q"
          using True sent Some by (simp add: tile_is_sentinel_def)
        have "w' = print (CannotFindTile level x tileY) w2" "r = Return False"
          using Cons.prems step r2 True by simp_all
        then show ?thesis using sen w2 by simp
      next
        case False
        have rec: "fetch_tile_row net level tileY xs (imagelist @ [im]) w2 = (w', r)"
          using Cons.prems step r2 False by simp
        note ih = Cons.IH [OF rec, unfolded w2 tile_is_sentinel_cong [OF w2(2)]]
        show ?thesis
        proof (cases r)
          case (Normal imgs)
          then show ?thesis by simp
        next
          case (Return b)
          then show ?thesis using ih by auto
        next
          case (Raise e)
          then show ?thesis using ih by auto
        qed
      qed
    qed
  qed
qed

lemma assemble_rows_failure:
  assumes "assemble_rows net level tileX1 tileX2 tileY1 ys result w = (w', r)"
  shows "case r of
           Normal res \<Rightarrow> True
         | Return b \<Rightarrow>
             (\<exists>y\<in>set ys. \<exists>x\<in>{tileX1..tileX2}.
                tile_is_sentinel net w (tileXY_to_quadkey x y level) \<and>
                stdout w' = stdout w @ [CannotFindTile level x y])
         | Raise e \<Rightarrow> stdout w' = stdout w \<and>
             ((\<exists>y\<in>set ys. \<exists>x\<in>{tileX1..tileX2}. net (tileXY_to_quadkey x y level) = None)
              \<or> sentinel net w = None)"
  using assms
proof (induction ys arbitrary: result w)
  case Nil
  then show ?case by auto
next
  case (Cons y ys)
  obtain w1 r1 where f: "fetch_tile_row net level y [tileX1..tileX2] [] w = (w1, r1)"
    by (cases "fetch_tile_row net level y [tileX1..tileX2] [] w")
  note f1 = fetch_tile_row_effect [OF f]
  note f2 = fetch_tile_row_failure [OF f]
  have w1: "sentinel net w1 = sentinel net w"
    using f1 by simp
  show ?case
  proof (cases r1)
    case (Normal imgs)
    then have out: "stdout w1 = stdout w"
      using f1 by simp
    obtain res where rec: "assemble_rows net level tileX1 tileX2 tileY1 ys res w1 = (w', r)"
      using Cons.prems f Normal by (simp add: row_image_eq)
    note ih = Cons.IH [OF rec, unfolded w1 out tile_is_sentinel_cong [OF w1]]
    show ?thesis
    proof (cases r)
      case (Normal res)
      then show ?thesis by simp
    next
      case (Return b)
      then show ?thesis using ih by auto
    next
      case (Raise e)
      then show ?thesis using ih by auto
    qed
  next
    case (Return b)
    then have "w' = w1" "r = Return b" using Cons.prems f by simp_all
    moreover have "\<exists>x\<in>{tileX1..tileX2}. tile_is_sentinel net w (tileXY_to_quadkey x y level) \<and>
                 stdout w1 = stdout w @ [CannotFindTile level x y]"
      using f2 Return by simp
    ultimately show ?thesis by auto
  next
    case (Raise e)
    then have "w' = w1" "r = Raise e" using Cons.prems f by simp_all
    moreover have "stdout w1 = stdout w \<and>
        ((\<exists>x\<in>{tileX1..tileX2}. net (tileXY_to_quadkey x y level) = None) \<or> sentinel net w = None)"
      using f2 Raise by simp
    ultimately show ?thesis by auto
  qed
qed

lemma attempt_level_failure:
  assumes run: "attempt_level net lat1 lon1 lat2 lon2 level w = (w', r)"
    and nc: "\<not> collapsed lat1 lon1 lat2 lon2 level"
    and tr: "tile_range lat1 lon1 lat2 lon2 level = (tileX1, tileY1, tileX2, tileY2)"
    and ordered: "tileX1 \<le> tileX2" "tileY1 \<le> tileY2"
  shows "case r of
           Normal u \<Rightarrow> True
         | Return b \<Rightarrow> b \<or>
             (\<exists>y\<in>{tileY1..tileY2}. \<exists>x\<in>{tileX1..tileX2}.
                tile_is_sentinel net w (tileXY_to_quadkey x y level) \<and>
                stdout w' = stdout w @ [CannotFindTile level x y])
         | Raise e \<Rightarrow> stdout w' = stdout w \<and>
             ((\<exists>y\<in>{tileY1..tileY2}. \<exists>x\<in>{tileX1..tileX2}. net (tileXY_to_quadkey x y level) = None)
              \<or> sentinel net w = None)"
proof -
  obtain pixelX1 pixelY1 where p1: "latlong_to_pixelXY lat1 lon1 level = (pixelX1, pixelY1)"
    by (cases "latlong_to_pixelXY lat1 lon1 level")
  obtain pixelX2 pixelY2 where p2: "latlong_to_pixelXY lat2 lon2 level = (pixelX2, pixelY2)"
    by (cases "latlong_to_pixelXY lat2 lon2 level")
  have t1: "pixelXY_to_tileXY pixelX1 pixelY1 = (tileX1, tileY1)"
    and t2: "pixelXY_to_tileXY pixelX2 pixelY2 = (tileX2, tileY2)"
    using tr by (auto simp: tile_range_def p1 p2 split: prod.splits)
  have span: "\<not> (\<bar>pixelX1 - pixelX2\<bar> \<le> 1 \<or> \<bar>pixelY1 - pixelY2\<bar> \<le> 1)"
    using nc by (simp add: collapsed_def p1 p2)
  let ?W = "(tileX2 - tileX1 + 1) * TILESIZE" and ?H = "(tileY2 - tileY1 + 1) * TILESIZE"
  have pos: "0 < ?W" "0 < ?H" using ordered by (simp_all add: TILESIZE_def)
  have n: "Image_new ?W ?H = Inr (blank ?W ?H)"
    using pos by (simp add: Image_new_def blank_def)
  obtain w1 r1 where a: "assemble_rows net level tileX1 tileX2 tileY1 [tileY1..tileY2] (blank ?W ?H) w = (w1, r1)"
    by (cases "assemble_rows net level tileX1 tileX2 tileY1 [tileY1..tileY2] (blank ?W ?H) w")
  have body: "attempt_level net lat1 lon1 lat2 lon2 level w =
     (case r1 of
        Raise e \<Rightarrow> (w1, Raise e)
      | Return b \<Rightarrow> (w1, Return b)
      | Normal result' \<Rightarrow>
          (case save result' (lat1, lon1) w1 of
             (w2, Inl e) \<Rightarrow> (w2, Raise e)
           | (w2, Inr u) \<Rightarrow> (print (ImageSaved lat1 lon1) w2, Return True)))"
    using span by (simp add: attempt_level_def p1 p2 t1 t2 n a)
  note a1 = assemble_rows_effect [OF a]
  note a2 = assemble_rows_failure [OF a]
  show ?thesis
  proof (cases r1)
    case (Normal res)
    have "width res = ?W" "height res = ?H"
      using a1 Normal per_row_mosaic_size [of "fetched_tile net level" tileX1 tileY1 tileX2 tileY2]
      by (simp_all add: per_row_mosaic_def)
    then have "0 < width res" "0 < height res"
      using pos by simp_all
    then have "save res (lat1, lon1) w1 = (w1\<lparr>saved := saved w1 @ [((lat1, lon1), res)]\<rparr>, Inr ())"
      by (simp add: save_def)
    then have "r = Return True"
      using run body Normal by simp
    then show ?thesis by simp
  next
    case (Return b)
    then have "w' = w1" "r = Return b" using run body by simp_all
    then show ?thesis using a2 Return by simp
  next
    case (Raise e)
    then have "w' = w1" "r = Raise e" using run body by simp_all
    then show ?thesis using a2 Raise by simp
  qed
qed

text \<open>
  Claim C2, as amended. When the box is not collapsed at \<open>MAXLEVEL\<close> and some tile of
  the grid is unavailable (its request fails, or its image equals the sentinel), the
  assembly is given up in one of two ways. Either a tile of the grid equals the
  sentinel, the function prints that this tile cannot be found and returns False; or a
  request has failed (for a tile of the grid, or for the null tile), and its exception
  leaves the function with nothing printed. In both cases no raster is saved, and every
  request made is for the null tile or for a tile of \<open>MAXLEVEL\<close>, none for a coarser
  level.
\<close>

theorem unavailable_tile_gives_up:
  assumes nc: "\<not> collapsed lat1 lon1 lat2 lon2 MAXLEVEL"
    and tr: "tile_range lat1 lon1 lat2 lon2 MAXLEVEL = (tileX1, tileY1, tileX2, tileY2)"
    and grid: "(tileX, tileY) \<in> set (tile_grid tileX1 tileY1 tileX2 tileY2)"
    and bad: "tile_unavailable net w (tileXY_to_quadkey tileX tileY MAXLEVEL)"
    and run: "max_resolution_imagery_retrieval net lat1 lon1 lat2 lon2 w = (w', r)"
  shows "(r = Inr False \<and>
            (\<exists>y\<in>{tileY1..tileY2}. \<exists>x\<in>{tileX1..tileX2}.
               tile_is_sentinel net w (tileXY_to_quadkey x y MAXLEVEL) \<and>
               stdout w' = stdout w @ [CannotFindTile MAXLEVEL x y])
          \<or> r = Inl URLError \<and> stdout w' = stdout w \<and>
            ((\<exists>y\<in>{tileY1..tileY2}. \<exists>x\<in>{tileX1..tileX2}.
                net (tileXY_to_quadkey x y MAXLEVEL) = None)
             \<or> sentinel net w = None))
       \<and> saved w' = saved w
       \<and> set (requests w') \<subseteq> set (requests w) \<union> insert NULLKEY {q. length q = MAXLEVEL}"
proof -
  from run obtain r' where a: "attempt_level net lat1 lon1 lat2 lon2 MAXLEVEL w = (w', r')"
    and r: "r = (case r' of Normal u \<Rightarrow> Inr False | Return b \<Rightarrow> Inr b | Raise e \<Rightarrow> Inl e)"
    by (rule max_resolution_cases)
  have in_grid: "tileX \<in> {tileX1..tileX2}" "tileY \<in> {tileY1..tileY2}"
    using grid by (simp_all add: tile_grid_iff)
  then have ordered: "tileX1 \<le> tileX2" "tileY1 \<le> tileY2" by auto
  have nok: "\<not> tile_ok net w (tileXY_to_quadkey tileX tileY MAXLEVEL)"
    using bad by (rule tile_unavailable_not_ok)
  have not_all: "\<not> (\<forall>y\<in>{tileY1..tileY2}. \<forall>x\<in>{tileX1..tileX2}.
                      tile_ok net w (tileXY_to_quadkey x y MAXLEVEL))"
    using in_grid nok by blast
  from attempt_level_effect [OF a nc tr] not_all ordered
  have cases: "(r' = Return False \<or> r' = Raise URLError) \<and> saved w' = saved w"
    by auto
  note f = attempt_level_failure [OF a nc tr ordered]
  have "r = Inr False \<and>
            (\<exists>y\<in>{tileY1..tileY2}. \<exists>x\<in>{tileX1..tileX2}.
               tile_is_sentinel net w (tileXY_to_quadkey x y MAXLEVEL) \<and>
               stdout w' = stdout w @ [CannotFindTile MAXLEVEL x y])
          \<or> r = Inl URLError \<and> stdout w' = stdout w \<and>
            ((\<exists>y\<in>{tileY1..tileY2}. \<exists>x\<in>{tileX1..tileX2}.
                net (tileXY_to_quadkey x y MAXLEVEL) = None)
             \<or> sentinel net w = None)"
  proof (cases "r' = Return False")
    case True
    then have "\<exists>y\<in>{tileY1..tileY2}. \<exists>x\<in>{tileX1..tileX2}.
                tile_is_sentinel net w (tileXY_to_quadkey x y MAXLEVEL) \<and>
                stdout w' = stdout w @ [CannotFindTile MAXLEVEL x y]"
      using f by simp
    then show ?thesis using True r by simp
  next
    case False
    then have e: "r' = Raise URLError" using cases by simp
    then have "stdout w' = stdout w \<and>
             ((\<exists>y\<in>{tileY1..tileY2}. \<exists>x\<in>{tileX1..tileX2}. net (tileXY_to_quadkey x y MAXLEVEL) = None)
              \<or> sentinel net w = None)"
      using f by simp
    then show ?thesis using e r by simp
  qed
  then show ?thesis using cases attempt_level_requests [OF a] by simp
qed

theorem unavailable_tile_gives_up_witness:
  "\<exists>tileX1 tileY1 tileX2 tileY2 w' x y.
     \<not> collapsed box_north box_west box_south box_east MAXLEVEL \<and>
     tile_range box_north box_west box_south box_east MAXLEVEL = (tileX1, tileY1, tileX2, tileY2) \<and>
     (tileX1, tileY1) \<in> set (tile_grid tileX1 tileY1 tileX2 tileY2) \<and>
     tile_unavailable (\<lambda>q. Some camera_tile) world1 (tileXY_to_quadkey tileX1 tileY1 MAXLEVEL) \<and>
     max_resolution_imagery_retrieval (\<lambda>q. Some camera_tile) box_north box_west box_south box_east world1
       = (w', Inr False) \<and>
     x \<in> {tileX1..tileX2} \<and> y \<in> {tileY1..tileY2} \<and>
     stdout w' = [CannotFindTile MAXLEVEL x y] \<and>
     saved w' = [] \<and>
     set (requests w') \<subseteq> insert NULLKEY {q. length q = MAXLEVEL}"
proof -
  obtain tileX1 tileY1 tileX2 tileY2 where
    tr: "tile_range box_north box_west box_south box_east MAXLEVEL = (tileX1, tileY1, tileX2, tileY2)"
    and b: "tileX1 \<le> 4194287" "4194320 \<le> tileX2" "tileY1 \<le> 4194287" "4194320 \<le> tileY2"
    and nc: "\<not> collapsed box_north box_west box_south box_east MAXLEVEL"
    by (rule equator_box_range)
  have grid: "(tileX1, tileY1) \<in> set (tile_grid tileX1 tileY1 tileX2 tileY2)"
    using b by (simp add: tile_grid_iff)
  have same: "image_eq camera_tile camera_tile"
    by (simp add: image_eq_def)
  have bad: "tile_unavailable (\<lambda>q. Some camera_tile) world1 (tileXY_to_quadkey tileX1 tileY1 MAXLEVEL)"
    using same by (simp add: tile_unavailable_def sentinel_def world1_def)
  obtain w' r where run: "max_resolution_imagery_retrieval (\<lambda>q. Some camera_tile)
      box_north box_west box_south box_east world1 = (w', r)"
    by (cases "max_resolution_imagery_retrieval (\<lambda>q. Some camera_tile)
      box_north box_west box_south box_east world1")
  have s: "sentinel (\<lambda>q. Some camera_tile) world1 \<noteq> None"
    by (simp add: sentinel_def world1_def)
  from unavailable_tile_gives_up [OF nc tr grid bad run] s
  obtain x y where "r = Inr False" "x \<in> {tileX1..tileX2}" "y \<in> {tileY1..tileY2}"
    "stdout w' = stdout world1 @ [CannotFindTile MAXLEVEL x y]" "saved w' = saved world1"
    "set (requests w') \<subseteq> set (requests world1) \<union> insert NULLKEY {q. length q = MAXLEVEL}"
    by auto
  then have "max_resolution_imagery_retrieval (\<lambda>q. Some camera_tile)
      box_north box_west box_south box_east world1 = (w', Inr False) \<and>
     x \<in> {tileX1..tileX2} \<and> y \<in> {tileY1..tileY2} \<and>
     stdout w' = [CannotFindTile MAXLEVEL x y] \<and>
     saved w' = [] \<and>
     set (requests w') \<subseteq> insert NULLKEY {q. length q = MAXLEVEL}"
    using run by (simp add: world1_def)
  with nc tr grid bad show ?thesis by blast
qed

text \<open>
  Claim C2 as stated fails where a request fails: for the 200 m box at (0, 0) and a
  server that answers no request, the first tile of the grid is unavailable, yet the
  function does not return False and prints nothing: the exception of the request
  leaves it.
\<close>

theorem failed_request_is_not_reported:
  "\<exists>tileX1 tileY1 tileX2 tileY2 w'.
     \<not> collapsed box_north box_west box_south box_east MAXLEVEL \<and>
     tile_range box_north box_west box_south box_east MAXLEVEL = (tileX1, tileY1, tileX2, tileY2) \<and>
     (tileX1, tileY1) \<in> set (tile_grid tileX1 tileY1 tileX2 tileY2) \<and>
     tile_unavailable (\<lambda>q. None) world0 (tileXY_to_quadkey tileX1 tileY1 MAXLEVEL) \<and>
     max_resolution_imagery_retrieval (\<lambda>q. None) box_north box_west box_south box_east world0
       = (w', Inl URLError) \<and>
     stdout w' = []"
proof -
  obtain tileX1 tileY1 tileX2 tileY2 where
    tr: "tile_range box_north box_west box_south box_east MAXLEVEL = (tileX1, tileY1, tileX2, tileY2)"
    and b: "tileX1 \<le> 4194287" "4194320 \<le> tileX2" "tileY1 \<le> 4194287" "4194320 \<le> tileY2"
    and nc: "\<not> collapsed box_north box_west box_south box_east MAXLEVEL"
    by (rule equator_box_range)
  have ordered: "tileX1 \<le> tileX2" "tileY1 \<le> tileY2" using b by simp_all
  have grid: "(tileX1, tileY1) \<in> set (tile_grid tileX1 tileY1 tileX2 tileY2)"
    using b by (simp add: tile_grid_iff)
  have bad: "tile_unavailable (\<lambda>q. None) world0 (tileXY_to_quadkey tileX1 tileY1 MAXLEVEL)"
    by (simp add: tile_unavailable_def)
  obtain w' r where run: "max_resolution_imagery_retrieval (\<lambda>q. None)
      box_north box_west box_south box_east world0 = (w', r)"
    by (cases "max_resolution_imagery_retrieval (\<lambda>q. None)
      box_north box_west box_south box_east world0")
  from run obtain r' where a: "attempt_level (\<lambda>q. None) box_north box_west box_south box_east MAXLEVEL world0 = (w', r')"
    and r: "r = (case r' of Normal u \<Rightarrow> Inr False | Return b \<Rightarrow> Inr b | Raise e \<Rightarrow> Inl e)"
    by (rule max_resolution_cases)
  have nok: "\<not> tile_ok (\<lambda>q. None) world0 q" for q
    by (simp add: tile_ok_def)
  have nos: "\<not> tile_is_sentinel (\<lambda>q. None) world0 q" for q
    by (simp add: tile_is_sentinel_def)
  from attempt_level_effect [OF a nc tr] nok ordered grid
  have c: "r' = Return False \<or> r' = Raise URLError"
    by (auto simp: tile_grid_iff)
  note f = attempt_level_failure [OF a nc tr ordered]
  have "r' \<noteq> Return False"
    using f nos by auto
  then have e: "r' = Raise URLError" using c by simp
  then have "stdout w' = stdout world0" using f by simp
  then have "max_resolution_imagery_retrieval (\<lambda>q. None) box_north box_west box_south box_east world0
       = (w', Inl URLError) \<and> stdout w' = []"
    using run r e by (simp add: world0_def)
  with nc tr grid bad show ?thesis by blast
qed

end
